theory Spec2Isabelle
  imports Complex_Main "HOL-Library.Word"
begin

section \<open>Strings of the page script\<close>

text \<open>
  A JavaScript string is a sequence of 16-bit code units. A literal of the script is
  written \<open>js ''...''\<close>; the two role labels of the transcript are not ASCII and are
  given by their code units.
\<close>

type_synonym jsstring = "16 word list"
type_synonym byte = "8 word"

definition js :: "string \<Rightarrow> jsstring" where
  "js cs = map of_char cs"

definition label_you :: jsstring where
  "label_you = [0x4F60]"

definition label_grok :: jsstring where
  "label_grok = js ''Grok''"

text \<open>
  \<open>'prefix' + Date.now()\<close>: \<open>Date.now()\<close> is a whole number of milliseconds, taken
  here as a \<open>nat\<close> the environment supplies; string concatenation renders it in
  decimal, without sign, leading zero or exponent (it stays far below \<open>1e21\<close>).
\<close>

definition digit :: "nat \<Rightarrow> 16 word" where
  "digit d = 0x30 + of_nat d"

fun decimal :: "nat \<Rightarrow> jsstring" where
  "decimal n = (if n < 10 then [digit n] else decimal (n div 10) @ [digit (n mod 10)])"

declare decimal.simps [simp del]

text \<open>
  \<open>String.prototype.trim\<close>: removes the white space and line terminator code units of
  ECMAScript from both ends.
\<close>

definition js_whitespace :: "16 word \<Rightarrow> bool" where
  "js_whitespace c \<longleftrightarrow>
     c \<in> {0x09, 0x0A, 0x0B, 0x0C, 0x0D, 0x20, 0xA0, 0x1680, 0x2028, 0x2029, 0x202F,
          0x205F, 0x3000, 0xFEFF} \<or> (0x2000 \<le> c \<and> c \<le> 0x200A)"

definition trim :: "jsstring \<Rightarrow> jsstring" where
  "trim t = rev (dropWhile js_whitespace (rev (dropWhile js_whitespace t)))"

text \<open>
  \<open>new TextEncoder().encode(msg)\<close>: the string is read as scalar values (a surrogate
  pair is one code point, a lone surrogate becomes U+FFFD) and each is written in UTF-8.
\<close>

definition high_surrogate :: "16 word \<Rightarrow> bool" where
  "high_surrogate c \<longleftrightarrow> 0xD800 \<le> c \<and> c \<le> 0xDBFF"

definition low_surrogate :: "16 word \<Rightarrow> bool" where
  "low_surrogate c \<longleftrightarrow> 0xDC00 \<le> c \<and> c \<le> 0xDFFF"

fun scalar_values :: "jsstring \<Rightarrow> nat list" where
  "scalar_values [] = []"
| "scalar_values [c] =
     (if high_surrogate c \<or> low_surrogate c then [0xFFFD] else [unat c])"
| "scalar_values (c # d # cs) =
     (if high_surrogate c \<and> low_surrogate d
      then (0x10000 + (unat c - 0xD800) * 0x400 + (unat d - 0xDC00)) # scalar_values cs
      else if high_surrogate c \<or> low_surrogate c then 0xFFFD # scalar_values (d # cs)
      else unat c # scalar_values (d # cs))"

definition utf8_of_scalar :: "nat \<Rightarrow> byte list" where
  "utf8_of_scalar cp =
     (if cp < 0x80 then [of_nat cp]
      else if cp < 0x800 then [of_nat (0xC0 + cp div 0x40), of_nat (0x80 + cp mod 0x40)]
      else if cp < 0x10000 then
        [of_nat (0xE0 + cp div 0x1000), of_nat (0x80 + cp div 0x40 mod 0x40),
         of_nat (0x80 + cp mod 0x40)]
      else
        [of_nat (0xF0 + cp div 0x40000), of_nat (0x80 + cp div 0x1000 mod 0x40),
         of_nat (0x80 + cp div 0x40 mod 0x40), of_nat (0x80 + cp mod 0x40)])"

definition TextEncoder_encode :: "jsstring \<Rightarrow> byte list" where
  "TextEncoder_encode t = concat (map utf8_of_scalar (scalar_values t))"

section \<open>Parsed data-channel payloads\<close>

text \<open>
  \<open>JSON.parse\<close> belongs to the platform: the handlers take it as a parameter
  \<open>parse\<close> returning \<open>None\<close> where it throws. Its results are JSON values; an object is
  the list of its own properties.
\<close>

datatype json =
    JNull
  | JBool bool
  | JNum real
  | JStr jsstring
  | JArr "json list"
  | JObj "(jsstring \<times> json) list"

text \<open>\<open>!v\<close> is the negation of \<open>truthy v\<close>.\<close>

fun truthy :: "json \<Rightarrow> bool" where
  "truthy JNull = False"
| "truthy (JBool b) = b"
| "truthy (JNum r) = (r \<noteq> 0)"
| "truthy (JStr t) = (t \<noteq> [])"
| "truthy (JArr vs) = True"
| "truthy (JObj kvs) = True"

text \<open>
  \<open>data.name\<close> for one of the names the handler reads (\<open>type\<close>, \<open>item_id\<close>,
  \<open>transcript\<close>, \<open>delta\<close>): \<open>None\<close> is \<open>undefined\<close>. Only an object has such a property.
\<close>

fun get_prop :: "json \<Rightarrow> jsstring \<Rightarrow> json option" where
  "get_prop (JObj kvs) k = map_of kvs k"
| "get_prop v k = None"

text \<open>
  \<open>data.name || fallback\<close>: the value of the property where it is truthy, the
  fallback otherwise. Nothing tests the type of the result: a truthy value that is not
  a string is used as it is.
\<close>

definition or_else :: "json option \<Rightarrow> json \<Rightarrow> json" where
  "or_else v fallback =
     (case v of None \<Rightarrow> fallback | Some x \<Rightarrow> if truthy x then x else fallback)"

text \<open>
  Where such a value reaches the page or meets \<open>+\<close>, the platform converts it. On
  strings the conversions are known: a string is its own text, and two strings are
  concatenated. For every other value they belong to the platform and are parameters
  \<open>co\<close> of the handlers: \<open>to_text co v\<close> is the string the value \<open>v\<close> is written as, and
  \<open>add_values co a b\<close> the value of \<open>a + b\<close>; \<open>None\<close> where the conversion throws (an
  object whose own \<open>toString\<close> property is not a function). A number is given by a
  real; what the platform makes of numbers is wholly its own.
\<close>

record coercions =
  to_text :: "json \<Rightarrow> jsstring option"
  add_values :: "json \<Rightarrow> json \<Rightarrow> json option"

definition ToString :: "coercions \<Rightarrow> json \<Rightarrow> jsstring option" where
  "ToString co v = (case v of JStr t \<Rightarrow> Some t | _ \<Rightarrow> to_text co v)"

definition js_plus :: "coercions \<Rightarrow> json \<Rightarrow> json \<Rightarrow> json option" where
  "js_plus co a b =
     (case a of
        JStr x \<Rightarrow> (case b of JStr y \<Rightarrow> Some (JStr (x @ y)) | _ \<Rightarrow> add_values co a b)
      | _ \<Rightarrow> add_values co a b)"

text \<open>
  A \<open>Map\<close> compares strings, numbers and booleans by value and arrays and objects by
  reference. A parsed array or object is a new object that nothing else refers to, so
  as a key it finds nothing and, once filed, is never found again.
\<close>

fun by_reference :: "json \<Rightarrow> bool" where
  "by_reference (JArr vs) = True"
| "by_reference (JObj kvs) = True"
| "by_reference v = False"

section \<open>The transcript state\<close>

datatype role = User | Assistant

text \<open>
  One transcript entry \<open>{ element: msg, text: text }\<close> together with the element it
  owns: the role class and \<open>dataset.segmentId\<close> of \<open>msg\<close>, the text of its label, and
  the text and the \<open>interim\<close> class of its bubble. Every element the script builds has
  its bubble, so \<open>querySelector('.transcript-bubble')\<close> always finds it. The element
  holds strings; \<open>entry_text\<close> is the property \<open>text\<close> of the entry and holds whatever
  value was assigned to it.
\<close>

record entry =
  role :: role
  segmentId :: jsstring
  roleLabel :: jsstring
  bubbleText :: jsstring
  interim :: bool
  entry_text :: json

datatype conn_state = RoomDisconnected | RoomConnecting | RoomConnected | RoomReconnecting

datatype status = StatusNone | StatusConnecting | StatusConnected | StatusError

text \<open>
  Where an activation of \<open>startSession\<close> is suspended: the \<open>await\<close> it waits at, with the
  number of local tracks once they are acquired and, while it waits for
  \<open>room.connect\<close>, the number of the room it created. \<open>Finished\<close>: it has returned.
\<close>

datatype start_pc =
    Finished
  | AwaitPublicKey
  | AwaitLocalTracks
  | AwaitTokenResponse nat
  | AwaitTokenBody nat
  | AwaitConnect nat nat
  | AwaitPublishTrack nat

text \<open>
  The variables of the script. Entries are objects shared by reference between
  \<open>segmentElements\<close>, \<open>lastUserSpeechEntry\<close> and the transcript container, so they
  live in a store \<open>heap\<close> and are named by their index in it; an object no reference
  reaches any more stays in the store as garbage.
  \<^item> \<open>hasContainer\<close>: \<open>transcriptContainer\<close> is not null;
  \<^item> \<open>emptyShown\<close>: the container holds the \<open>transcript-empty\<close> placeholder;
  \<^item> \<open>children\<close>: the message elements of the container, in document order;
  \<^item> \<open>segmentElements\<close>: the \<open>Map\<close>, on the keys it compares by value;
  \<^item> \<open>room\<close>: \<open>None\<close> is \<open>null\<close>, otherwise \<open>room.state\<close> as the transport reports it for
    the room the variable refers to, which is always the room created last;
  \<^item> \<open>roomsCreated\<close>: the number of \<open>Room\<close> objects created so far; they are numbered
    from 0, and each keeps the handlers registered on it;
  \<^item> \<open>sdkReady\<close>: the variable \<open>Room\<close> is set;
  \<^item> \<open>published\<close>: the calls of \<open>publishData(payload, { topic })\<close>, oldest first;
  \<^item> \<open>status\<close>, \<open>stopShown\<close>, \<open>startDisabled\<close>, \<open>textInputShown\<close>: what \<open>setStatus\<close>,
    \<open>setButtons\<close> and \<open>setTextInputVisible\<close> last set (\<open>StatusNone\<close> is the status with
    no class, shown as not connected; the start button is hidden exactly when the stop
    button is shown);
  \<^item> \<open>starts\<close>: the activations of \<open>startSession\<close>, in the order of the clicks that
    started them;
  \<^item> \<open>stops\<close>: the activations of \<open>stopSession\<close> that reached
    \<open>await room.disconnect()\<close>: the number of the room while it waits, \<open>None\<close> once
    it has returned.
  The log panel, toasts, scrolling, the audio elements and the microphone button have no
  part in the transcript or in the session status and are left out.
\<close>

record state =
  hasContainer :: bool
  emptyShown :: bool
  children :: "nat list"
  heap :: "entry list"
  segmentElements :: "json \<rightharpoonup> nat"
  lastUserSpeechEntry :: "nat option"
  localParticipantIdentity :: "jsstring option"
  room :: "conn_state option"
  roomsCreated :: nat
  sdkReady :: bool
  published :: "(byte list \<times> jsstring) list"
  status :: status
  stopShown :: bool
  startDisabled :: bool
  textInputShown :: bool
  starts :: "start_pc list"
  stops :: "nat option list"

text \<open>
  How a function ends: it returns, or an exception leaves it; either way with the
  state as it is at that moment.
\<close>

datatype completion = Returned state | Thrown state

fun state_of :: "completion \<Rightarrow> state" where
  "state_of (Returned s) = s"
| "state_of (Thrown s) = s"

datatype failure = TypeError

section \<open>Transcript operations\<close>

definition clearTranscript :: "state \<Rightarrow> state" where
  "clearTranscript s =
     (if \<not> hasContainer s then s
      else s\<lparr>emptyShown := True, children := [], segmentElements := Map.empty,
              lastUserSpeechEntry := None\<rparr>)"

definition hideTranscriptEmpty :: "state \<Rightarrow> state" where
  "hideTranscriptEmpty s = (if \<not> hasContainer s then s else s\<lparr>emptyShown := False\<rparr>)"

definition update_entry :: "nat \<Rightarrow> (entry \<Rightarrow> entry) \<Rightarrow> state \<Rightarrow> state" where
  "update_entry a f s = s\<lparr>heap := (heap s)[a := f (heap s ! a)]\<rparr>"

text \<open>\<open>segmentElements.get(k)\<close> and \<open>segmentElements.set(k, entry)\<close>.\<close>

definition find_entry :: "state \<Rightarrow> json \<Rightarrow> nat option" where
  "find_entry s k = (if by_reference k then None else segmentElements s k)"

definition file_entry :: "json \<Rightarrow> nat \<Rightarrow> state \<Rightarrow> state" where
  "file_entry k a s =
     (if by_reference k then s else s\<lparr>segmentElements := (segmentElements s)(k \<mapsto> a)\<rparr>)"

text \<open>
  A transport segment \<open>{ id, text, final }\<close>, typed by the transport library; \<open>seg_text\<close>
  is \<open>None\<close> where the text is missing, which \<open>seg.text || ''\<close> turns into the empty
  string.
\<close>

record segment =
  seg_id :: jsstring
  seg_text :: "jsstring option"
  seg_final :: bool

text \<open>
  \<open>participant && localParticipantIdentity && participant.identity ===
  localParticipantIdentity\<close>; the participant is given by its identity, \<open>None\<close> when the
  event carries no participant.
\<close>

definition isLocal :: "jsstring option \<Rightarrow> state \<Rightarrow> bool" where
  "isLocal participant s =
     (case participant of
        None \<Rightarrow> False
      | Some pid \<Rightarrow>
          (case localParticipantIdentity s of
             None \<Rightarrow> False
           | Some me \<Rightarrow> me \<noteq> [] \<and> pid = me))"

text \<open>The body of the loop of \<open>handleTranscription\<close>, for one segment.\<close>

definition handleSegment :: "bool \<Rightarrow> segment \<Rightarrow> state \<Rightarrow> state" where
  "handleSegment loc seg s =
     (let i = seg_id seg;
          t = (case seg_text seg of None \<Rightarrow> [] | Some x \<Rightarrow> x);
          isFinal = seg_final seg
      in case segmentElements s (JStr i) of
           Some a \<Rightarrow>
             update_entry a
               (\<lambda>e. e\<lparr>bubbleText := t, interim := (interim e \<and> \<not> isFinal),
                      entry_text := JStr t\<rparr>) s
         | None \<Rightarrow>
             (let a = length (heap s);
                  e = \<lparr>role = (if loc then User else Assistant), segmentId = i,
                       roleLabel = (if loc then label_you else label_grok),
                       bubbleText = t, interim = (\<not> isFinal), entry_text = JStr t\<rparr>
              in s\<lparr>heap := heap s @ [e], children := children s @ [a],
                    segmentElements := (segmentElements s)(JStr i \<mapsto> a),
                    lastUserSpeechEntry := (if loc then Some a else lastUserSpeechEntry s)\<rparr>))"

definition handleTranscription :: "segment list \<Rightarrow> jsstring option \<Rightarrow> state \<Rightarrow> state" where
  "handleTranscription segments participant s =
     (if \<not> hasContainer s \<or> segments = [] then s
      else foldl (\<lambda>s' seg. handleSegment (isLocal participant s) seg s')
             (hideTranscriptEmpty s) segments)"

text \<open>
  \<open>appendTranscriptBubble(id, role, roleLabel, text, interim)\<close>. Three statements can
  throw, in this order, after the placeholder is hidden and before anything is stored:
  \<open>msg.dataset.segmentId = id\<close> and \<open>bubble.textContent = text\<close>, which write the value
  as a string, and \<open>transcriptContainer.appendChild(msg)\<close>, for which the function has
  no guard of its own.
\<close>

definition appendTranscriptBubble ::
  "coercions \<Rightarrow> json \<Rightarrow> role \<Rightarrow> jsstring \<Rightarrow> json \<Rightarrow> bool \<Rightarrow> state \<Rightarrow> completion" where
  "appendTranscriptBubble co i r lbl t intr s =
     (let s1 = hideTranscriptEmpty s
      in case ToString co i of
           None \<Rightarrow> Thrown s1
         | Some sid \<Rightarrow>
             (case ToString co t of
                None \<Rightarrow> Thrown s1
              | Some bt \<Rightarrow>
                  if \<not> hasContainer s1 then Thrown s1
                  else
                    Returned
                      (file_entry i (length (heap s1))
                         (s1\<lparr>heap := heap s1 @
                                [\<lparr>role = r, segmentId = sid, roleLabel = lbl, bubbleText = bt,
                                  interim = intr, entry_text = t\<rparr>],
                              children := children s1 @ [length (heap s1)]\<rparr>))))"

definition type_completed :: jsstring where
  "type_completed = js ''conversation.item.input_audio_transcription.completed''"

definition type_delta :: jsstring where
  "type_delta = js ''response.audio_transcript.delta''"

definition type_done :: jsstring where
  "type_done = js ''response.audio_transcript.done''"

definition set_final_text :: "jsstring \<Rightarrow> json \<Rightarrow> entry \<Rightarrow> entry" where
  "set_final_text bt t e = e\<lparr>bubbleText := bt, interim := False, entry_text := t\<rparr>"

text \<open>
  The branch of \<open>handleDataMessage\<close> for a completed user transcription. In both
  updating cases \<open>bubble.textContent = transcript\<close> comes first and is the only statement
  that can throw.
\<close>

definition completed_branch :: "coercions \<Rightarrow> nat \<Rightarrow> json \<Rightarrow> state \<Rightarrow> completion" where
  "completed_branch co now data s =
     (let transcript = or_else (get_prop data (js ''transcript'')) (JStr [])
      in if \<not> truthy transcript then Returned s
         else
           (let i = or_else (get_prop data (js ''item_id'')) (JStr (js ''user-'' @ decimal now))
            in case find_entry s i of
                 Some a \<Rightarrow>
                   (case ToString co transcript of
                      None \<Rightarrow> Thrown s
                    | Some bt \<Rightarrow> Returned (update_entry a (set_final_text bt transcript) s))
               | None \<Rightarrow>
                   (case lastUserSpeechEntry s of
                      Some a \<Rightarrow>
                        (case ToString co transcript of
                           None \<Rightarrow> Thrown s
                         | Some bt \<Rightarrow>
                             Returned
                               ((file_entry i a (update_entry a (set_final_text bt transcript) s))
                                  \<lparr>lastUserSpeechEntry := None\<rparr>))
                    | None \<Rightarrow> appendTranscriptBubble co i User label_you transcript False s)))"

text \<open>
  The branch for a streaming fragment of the assistant's speech. On an entry that
  exists, \<open>existing.text += delta\<close> is evaluated first and can throw before anything
  changes; the bubble is written from the new text afterwards.
\<close>

definition delta_branch :: "coercions \<Rightarrow> nat \<Rightarrow> json \<Rightarrow> state \<Rightarrow> completion" where
  "delta_branch co now data s =
     (let delta = or_else (get_prop data (js ''delta'')) (JStr [])
      in if \<not> truthy delta then Returned s
         else
           (let i = or_else (get_prop data (js ''item_id'')) (JStr (js ''grok-'' @ decimal now))
            in case find_entry s i of
                 Some a \<Rightarrow>
                   (case js_plus co (entry_text (heap s ! a)) delta of
                      None \<Rightarrow> Thrown s
                    | Some v \<Rightarrow>
                        (let s1 = update_entry a (\<lambda>e. e\<lparr>entry_text := v\<rparr>) s
                         in case ToString co v of
                              None \<Rightarrow> Thrown s1
                            | Some bt \<Rightarrow> Returned (update_entry a (\<lambda>e. e\<lparr>bubbleText := bt\<rparr>) s1)))
               | None \<Rightarrow> appendTranscriptBubble co i Assistant label_grok delta True s))"

text \<open>
  The branch for the end of an assistant turn. On an entry that exists and with a
  truthy transcript, \<open>existing.text = transcript\<close> comes before
  \<open>bubble.textContent = transcript\<close>, which can throw; the \<open>interim\<close> class is removed
  last.
\<close>

definition done_branch :: "coercions \<Rightarrow> nat \<Rightarrow> json \<Rightarrow> state \<Rightarrow> completion" where
  "done_branch co now data s =
     (let transcript = or_else (get_prop data (js ''transcript'')) (JStr []);
          i = or_else (get_prop data (js ''item_id'')) (JStr (js ''grok-'' @ decimal now))
      in case find_entry s i of
           Some a \<Rightarrow>
             if truthy transcript
             then
               (let s1 = update_entry a (\<lambda>e. e\<lparr>entry_text := transcript\<rparr>) s
                in case ToString co transcript of
                     None \<Rightarrow> Thrown s1
                   | Some bt \<Rightarrow>
                       Returned (update_entry a (\<lambda>e. e\<lparr>bubbleText := bt, interim := False\<rparr>) s1))
             else Returned (update_entry a (\<lambda>e. e\<lparr>interim := False\<rparr>) s)
         | None \<Rightarrow>
             if truthy transcript
             then appendTranscriptBubble co i Assistant label_grok transcript False s
             else Returned s)"

text \<open>
  \<open>handleDataMessage\<close>. Everything after the first guard runs inside
  \<open>try { ... } catch (e) { }\<close>: when \<open>JSON.parse\<close> or a branch throws, the handler
  returns all the same, with the state as it was when the exception was raised. So the
  result is always \<open>Inr\<close>.
\<close>

definition handleDataMessage ::
  "(jsstring \<Rightarrow> json option) \<Rightarrow> coercions \<Rightarrow> nat \<Rightarrow> jsstring \<Rightarrow> state \<Rightarrow> failure + state" where
  "handleDataMessage parse co now txt s =
     (if \<not> hasContainer s \<or> txt = [] then Inr s
      else
        (case parse txt of
           None \<Rightarrow> Inr s
         | Some data \<Rightarrow>
             if \<not> truthy data then Inr s
             else
               (case get_prop data (js ''type'') of
                  None \<Rightarrow> Inr s
                | Some ty \<Rightarrow>
                    if \<not> truthy ty then Inr s
                    else if ty = JStr type_completed
                    then Inr (state_of (completed_branch co now data s))
                    else if ty = JStr type_delta
                    then Inr (state_of (delta_branch co now data s))
                    else if ty = JStr type_done
                    then Inr (state_of (done_branch co now data s))
                    else Inr s)))"

text \<open>
  \<open>sendTextMessage\<close>. The entry is appended outside the \<open>try\<close>, so an exception from
  \<open>appendTranscriptBubble\<close> leaves the function. The call of \<open>publishData\<close> is recorded
  whether or not the transport then throws: the \<open>catch\<close> around it only writes to the
  log.
\<close>

definition sendTextMessage :: "coercions \<Rightarrow> nat \<Rightarrow> jsstring \<Rightarrow> state \<Rightarrow> failure + state" where
  "sendTextMessage co now txt s =
     (if trim txt = [] then Inr s
      else
        (let msg = trim txt
         in if room s \<noteq> Some RoomConnected then Inr s
            else
              (case appendTranscriptBubble co (JStr (js ''text-user-'' @ decimal now)) User
                      label_you (JStr msg) False s of
                 Thrown s1 \<Rightarrow> Inl TypeError
               | Returned s1 \<Rightarrow>
                   Inr (s1\<lparr>published :=
                              published s1 @ [(TextEncoder_encode msg, js ''grok.chat'')]\<rparr>))))"

section \<open>The session\<close>

definition resetUI :: "state \<Rightarrow> state" where
  "resetUI s =
     s\<lparr>status := StatusNone, stopShown := False, startDisabled := False,
       textInputShown := False, localParticipantIdentity := None\<rparr>"

text \<open>
  \<open>pc_at s k\<close>: where the activation \<open>k\<close> of \<open>startSession\<close> is suspended; \<open>set_pc\<close>
  moves it on. \<open>start_failed k\<close> is the \<open>catch\<close> block of \<open>startSession\<close>, after which
  the activation has returned.
\<close>

definition pc_at :: "state \<Rightarrow> nat \<Rightarrow> start_pc" where
  "pc_at s k = (if k < length (starts s) then starts s ! k else Finished)"

definition set_pc :: "nat \<Rightarrow> start_pc \<Rightarrow> state \<Rightarrow> state" where
  "set_pc k pc s = s\<lparr>starts := (starts s)[k := pc]\<rparr>"

definition start_failed :: "nat \<Rightarrow> state \<Rightarrow> state" where
  "start_failed k s = set_pc k Finished (s\<lparr>status := StatusError, startDisabled := False\<rparr>)"

text \<open>
  The transport reports the state \<open>st\<close> for the room number \<open>r\<close>; the script sees it in
  \<open>room.state\<close> when \<open>r\<close> is the room its variable refers to.
\<close>

definition transport :: "nat \<Rightarrow> conn_state \<Rightarrow> state \<Rightarrow> state" where
  "transport r st s = (if Suc r = roomsCreated s then s\<lparr>room := Some st\<rparr> else s)"

text \<open>
  What reaches the session code from outside: clicks on the two buttons, and the
  settling of each promise an activation of \<open>startSession\<close> or \<open>stopSession\<close> waits
  for. The transport is a black box: it resolves or rejects \<open>connect\<close> and \<open>disconnect\<close>
  when it chooses and reports its own \<open>room.state\<close>.
  \<^item> \<open>StartClick lk\<close>: a click on the start button; \<open>lk\<close> tells whether the transport
    library is present on the page, for \<open>ensureLiveKit\<close>;
  \<^item> \<open>PublicKeyResolved k h mic\<close>: for the activation \<open>k\<close>, \<open>ensurePublicKey\<close> returned \<open>h\<close>
    (\<open>None\<close> is null), and \<open>mic\<close> tells whether \<open>ensureMicSupport\<close> finds a capture
    interface;
  \<^item> \<open>LocalTracksResolved k n\<close>: \<open>createLocalTracks\<close> returned \<open>n\<close> tracks;
  \<^item> \<open>TokenResponse k ok\<close>: \<open>fetch\<close> returned a response with \<open>response.ok = ok\<close>;
  \<^item> \<open>TokenBodyResolved k\<close>: \<open>response.json()\<close> returned the token and the address;
  \<^item> \<open>ConnectResolved k me\<close>: \<open>room.connect\<close> succeeded, and
    \<open>room.localParticipant.identity\<close>, read right afterwards, is \<open>me\<close>;
  \<^item> \<open>PublishResolved k\<close>: the \<open>publishTrack\<close> the activation waits for succeeded;
  \<^item> \<open>StopClick\<close>: a click on the stop button;
  \<^item> \<open>DisconnectResolved j\<close>: the \<open>room.disconnect()\<close> that the activation \<open>j\<close> of
    \<open>stopSession\<close> waits for succeeded;
  \<^item> \<open>TransportDisconnected r\<close>: the room number \<open>r\<close> emitted \<open>RoomEvent.Disconnected\<close>.
  The events named \<open>Rejected\<close> are the failures of the same promises.
\<close>

datatype session_event =
    StartClick bool
  | PublicKeyResolved nat "jsstring option" bool
  | PublicKeyRejected nat
  | LocalTracksResolved nat nat
  | LocalTracksRejected nat
  | TokenResponse nat bool
  | TokenFetchRejected nat
  | TokenBodyResolved nat
  | TokenBodyRejected nat
  | ConnectResolved nat jsstring
  | ConnectRejected nat
  | PublishResolved nat
  | PublishRejected nat
  | StopClick
  | DisconnectResolved nat
  | DisconnectRejected nat
  | TransportDisconnected nat

text \<open>
  One step of the session code: the code that runs, without interruption, when the
  event arrives. \<open>None\<close>: the event cannot arrive in this state, because the button is
  hidden or disabled, no activation waits for that promise, or no such room exists.
  A click on the start button is possible until \<open>startBtn.disabled = true\<close>, which an
  activation executes only after \<open>ensurePublicKey\<close> has returned, so several
  activations can be under way.
\<close>

fun session_step :: "session_event \<Rightarrow> state \<Rightarrow> state option" where
  "session_step (StartClick lk) s =
     (if stopShown s \<or> startDisabled s then None
      else if \<not> (sdkReady s \<or> lk) then Some s
      else Some (s\<lparr>sdkReady := True, starts := starts s @ [AwaitPublicKey]\<rparr>))"
| "session_step (PublicKeyResolved k h mic) s =
     (if pc_at s k \<noteq> AwaitPublicKey then None
      else if h = None then Some (set_pc k Finished s)
      else
        (let s1 = clearTranscript (s\<lparr>startDisabled := True, status := StatusConnecting\<rparr>)
         in if \<not> mic then Some (start_failed k s1)
            else Some (set_pc k AwaitLocalTracks s1)))"
| "session_step (PublicKeyRejected k) s =
     (if pc_at s k \<noteq> AwaitPublicKey then None else Some (start_failed k s))"
| "session_step (LocalTracksResolved k n) s =
     (if pc_at s k \<noteq> AwaitLocalTracks then None
      else Some (set_pc k (AwaitTokenResponse n) s))"
| "session_step (LocalTracksRejected k) s =
     (if pc_at s k \<noteq> AwaitLocalTracks then None else Some (start_failed k s))"
| "session_step (TokenResponse k ok) s =
     (case pc_at s k of
        AwaitTokenResponse n \<Rightarrow>
          if \<not> ok then Some (start_failed k s) else Some (set_pc k (AwaitTokenBody n) s)
      | _ \<Rightarrow> None)"
| "session_step (TokenFetchRejected k) s =
     (case pc_at s k of AwaitTokenResponse n \<Rightarrow> Some (start_failed k s) | _ \<Rightarrow> None)"
| "session_step (TokenBodyResolved k) s =
     (case pc_at s k of
        AwaitTokenBody n \<Rightarrow>
          Some (set_pc k (AwaitConnect n (roomsCreated s))
                  (s\<lparr>room := Some RoomConnecting, roomsCreated := Suc (roomsCreated s)\<rparr>))
      | _ \<Rightarrow> None)"
| "session_step (TokenBodyRejected k) s =
     (case pc_at s k of AwaitTokenBody n \<Rightarrow> Some (start_failed k s) | _ \<Rightarrow> None)"
| "session_step (ConnectResolved k me) s =
     (case pc_at s k of
        AwaitConnect n r \<Rightarrow>
          Some (set_pc k (if n = 0 then Finished else AwaitPublishTrack n)
                  ((transport r RoomConnected s)
                     \<lparr>localParticipantIdentity := Some me, status := StatusConnected,
                      stopShown := True, textInputShown := True\<rparr>))
      | _ \<Rightarrow> None)"
| "session_step (ConnectRejected k) s =
     (case pc_at s k of
        AwaitConnect n r \<Rightarrow> Some (start_failed k (transport r RoomDisconnected s))
      | _ \<Rightarrow> None)"
| "session_step (PublishResolved k) s =
     (case pc_at s k of
        AwaitPublishTrack n \<Rightarrow>
          Some (set_pc k (if n \<le> 1 then Finished else AwaitPublishTrack (n - 1)) s)
      | _ \<Rightarrow> None)"
| "session_step (PublishRejected k) s =
     (case pc_at s k of AwaitPublishTrack n \<Rightarrow> Some (start_failed k s) | _ \<Rightarrow> None)"
| "session_step StopClick s =
     (if \<not> stopShown s then None
      else if room s \<noteq> None then Some (s\<lparr>stops := stops s @ [Some (roomsCreated s - 1)]\<rparr>)
      else Some (resetUI s))"
| "session_step (DisconnectResolved j) s =
     (if j < length (stops s)
      then (case stops s ! j of
              Some r \<Rightarrow>
                Some (resetUI ((transport r RoomDisconnected s)\<lparr>stops := (stops s)[j := None]\<rparr>))
            | None \<Rightarrow> None)
      else None)"
| "session_step (DisconnectRejected j) s =
     (if j < length (stops s)
      then (case stops s ! j of
              Some r \<Rightarrow> Some (s\<lparr>stops := (stops s)[j := None]\<rparr>)
            | None \<Rightarrow> None)
      else None)"
| "session_step (TransportDisconnected r) s =
     (if r < roomsCreated s then Some (resetUI (transport r RoomDisconnected s)) else None)"

fun session_run :: "session_event list \<Rightarrow> state \<Rightarrow> state option" where
  "session_run [] s = Some s"
| "session_run (ev # evs) s =
     (case session_step ev s of None \<Rightarrow> None | Some s' \<Rightarrow> session_run evs s')"

section \<open>Everything that can happen to the page\<close>

text \<open>
  Every handler the script registers, as one step function. The transcription and data
  handlers are registered on a room and the text input is shown only while connected;
  here these three events are let through in every state, so that what is proved of
  all runs covers more than the page can do. An exception that leaves
  \<open>sendTextMessage\<close> ends that handler only, and it is thrown before anything is stored,
  so the page goes on in the state it had. \<open>None\<close>: a session event that cannot arrive in
  this state.
\<close>

datatype event =
    TranscriptionReceived "segment list" "jsstring option"
  | DataReceived nat jsstring
  | TextSent nat jsstring
  | ClearClicked
  | Session session_event

fun handle_event ::
  "(jsstring \<Rightarrow> json option) \<Rightarrow> coercions \<Rightarrow> event \<Rightarrow> state \<Rightarrow> state option" where
  "handle_event parse co (TranscriptionReceived segments participant) s =
     Some (handleTranscription segments participant s)"
| "handle_event parse co (DataReceived now txt) s =
     (case handleDataMessage parse co now txt s of Inl e \<Rightarrow> Some s | Inr s' \<Rightarrow> Some s')"
| "handle_event parse co (TextSent now txt) s =
     (case sendTextMessage co now txt s of Inl e \<Rightarrow> Some s | Inr s' \<Rightarrow> Some s')"
| "handle_event parse co ClearClicked s = Some (clearTranscript s)"
| "handle_event parse co (Session ev) s = session_step ev s"

fun run ::
  "(jsstring \<Rightarrow> json option) \<Rightarrow> coercions \<Rightarrow> event list \<Rightarrow> state \<Rightarrow> state option" where
  "run parse co [] s = Some s"
| "run parse co (ev # evs) s =
     (case handle_event parse co ev s of None \<Rightarrow> None | Some s' \<Rightarrow> run parse co evs s')"

text \<open>
  The page as the script finds it when it is loaded, with a transcript container, the
  start button shown and enabled, and the stop button and the text input hidden.
\<close>

definition initial :: state where
  "initial =
     \<lparr>hasContainer = True, emptyShown = True, children = [], heap = [],
      segmentElements = Map.empty, lastUserSpeechEntry = None,
      localParticipantIdentity = None, room = None, roomsCreated = 0, sdkReady = False,
      published = [], status = StatusNone, stopShown = False, startDisabled = False,
      textInputShown = False, starts = [], stops = []\<rparr>"

section \<open>Notions the statements use\<close>

text \<open>
  \<open>carries parse txt ty = Some data\<close>: the payload \<open>txt\<close> is not empty and parses to
  \<open>data\<close>, whose \<open>type\<close> is the string \<open>ty\<close>.
  \<open>lacks data field\<close>: the field is missing from \<open>data\<close>, or holds a falsy value (the empty
  string, null, false or zero), so that \<open>data.field || ''\<close> is the empty string.
\<close>

definition carries :: "(jsstring \<Rightarrow> json option) \<Rightarrow> jsstring \<Rightarrow> jsstring \<Rightarrow> json option" where
  "carries parse txt ty =
     (if txt = [] then None
      else case parse txt of
             None \<Rightarrow> None
           | Some data \<Rightarrow> if get_prop data (js ''type'') = Some (JStr ty) then Some data else None)"

definition lacks :: "json \<Rightarrow> jsstring \<Rightarrow> bool" where
  "lacks data field = (case get_prop data field of None \<Rightarrow> True | Some v \<Rightarrow> \<not> truthy v)"

text \<open>
  \<open>assistant_only s s'\<close>: from \<open>s\<close> to \<open>s'\<close> the pending user entry is the same, no
  entry left the store, and every entry \<open>s'\<close> holds beyond those of \<open>s\<close> has the
  assistant role.
\<close>

definition assistant_only :: "state \<Rightarrow> state \<Rightarrow> bool" where
  "assistant_only s s' \<longleftrightarrow>
     lastUserSpeechEntry s' = lastUserSpeechEntry s \<and> length (heap s) \<le> length (heap s') \<and>
     (\<forall>a. length (heap s) \<le> a \<and> a < length (heap s') \<longrightarrow> role (heap s' ! a) = Assistant)"

text \<open>
  \<open>delta_of parse i (now, txt) f\<close>: the payload \<open>txt\<close> is a delta message for the item
  \<open>i\<close> with the fragment \<open>f\<close>. \<open>append_text f\<close> is what such a message does to an entry
  whose text is a string. \<open>after_messages parse co ds s\<close> is the state after the data
  messages \<open>ds\<close>, each with the time it is handled at, have been handled in turn.
\<close>

definition delta_of :: "(jsstring \<Rightarrow> json option) \<Rightarrow> jsstring \<Rightarrow> nat \<times> jsstring \<Rightarrow> jsstring \<Rightarrow> bool" where
  "delta_of parse i ev f \<longleftrightarrow>
     (case carries parse (snd ev) type_delta of
        None \<Rightarrow> False
      | Some data \<Rightarrow>
          get_prop data (js ''item_id'') = Some (JStr i) \<and>
          get_prop data (js ''delta'') = Some (JStr f))"

definition append_text :: "jsstring \<Rightarrow> jsstring \<Rightarrow> entry \<Rightarrow> entry" where
  "append_text t f e = e\<lparr>entry_text := JStr (t @ f), bubbleText := t @ f\<rparr>"

definition after_message ::
  "(jsstring \<Rightarrow> json option) \<Rightarrow> coercions \<Rightarrow> nat \<times> jsstring \<Rightarrow> state \<Rightarrow> state" where
  "after_message parse co d s =
     (case handleDataMessage parse co (fst d) (snd d) s of Inl e \<Rightarrow> s | Inr s' \<Rightarrow> s')"

definition after_messages ::
  "(jsstring \<Rightarrow> json option) \<Rightarrow> coercions \<Rightarrow> (nat \<times> jsstring) list \<Rightarrow> state \<Rightarrow> state" where
  "after_messages parse co ds s = foldl (\<lambda>s' d. after_message parse co d s') s ds"

text \<open>
  \<open>wf s\<close>: every reference of the script leads to an object of the store. It holds
  when the page is loaded and every handler keeps it.
\<close>

definition wf :: "state \<Rightarrow> bool" where
  "wf s \<longleftrightarrow>
     (\<forall>k a. segmentElements s k = Some a \<longrightarrow> a < length (heap s)) \<and>
     (\<forall>a. lastUserSpeechEntry s = Some a \<longrightarrow> a < length (heap s)) \<and>
     (\<forall>a \<in> set (children s). a < length (heap s))"

text \<open>
  \<open>settled a s\<close>: the entry at \<open>a\<close> exists and is final. \<open>final_under i a s\<close>: it is,
  moreover, the entry filed under the id \<open>i\<close>.
\<close>

definition settled :: "nat \<Rightarrow> state \<Rightarrow> bool" where
  "settled a s \<longleftrightarrow> a < length (heap s) \<and> \<not> interim (heap s ! a)"

definition final_under :: "jsstring \<Rightarrow> nat \<Rightarrow> state \<Rightarrow> bool" where
  "final_under i a s \<longleftrightarrow> segmentElements s (JStr i) = Some a \<and> settled a s"

text \<open>A sequence of transport batches, each with its participant, as events.\<close>

definition batch_events :: "(segment list \<times> jsstring option) list \<Rightarrow> event list" where
  "batch_events bs = map (\<lambda>(segs, p). TranscriptionReceived segs p) bs"

text \<open>
  \<open>typed_key now\<close>: the key \<open>'text-user-' + Date.now()\<close> of a typed message.
  \<open>avoids parse k ev\<close>: the event \<open>ev\<close> does not carry the string \<open>k\<close> as the id of one of
  its segments or as its \<open>item_id\<close>. \<open>not_pending a s\<close>: the entry at \<open>a\<close> exists and is
  not the pending user entry. \<open>untouched k a s\<close>: moreover, no key but the string \<open>k\<close>
  leads to it.
\<close>

definition typed_key :: "nat \<Rightarrow> jsstring" where
  "typed_key now = js ''text-user-'' @ decimal now"

fun avoids :: "(jsstring \<Rightarrow> json option) \<Rightarrow> jsstring \<Rightarrow> event \<Rightarrow> bool" where
  "avoids parse k (TranscriptionReceived segs p) = (\<forall>sg \<in> set segs. seg_id sg \<noteq> k)"
| "avoids parse k (DataReceived now txt) =
     (case parse txt of
        None \<Rightarrow> True
      | Some data \<Rightarrow> get_prop data (js ''item_id'') \<noteq> Some (JStr k))"
| "avoids parse k ev = True"

definition not_pending :: "nat \<Rightarrow> state \<Rightarrow> bool" where
  "not_pending a s \<longleftrightarrow> a < length (heap s) \<and> lastUserSpeechEntry s \<noteq> Some a"

definition untouched :: "jsstring \<Rightarrow> nat \<Rightarrow> state \<Rightarrow> bool" where
  "untouched k a s \<longleftrightarrow>
     not_pending a s \<and> (\<forall>j. segmentElements s j = Some a \<longrightarrow> j = JStr k)"

text \<open>
  \<open>connecting pc\<close>: the activation of \<open>startSession\<close> has shown the connecting status
  and is suspended at an \<open>await\<close> up to and including that of \<open>room.connect\<close>.
  \<open>stop_events s\<close>: a click on the stop button and, where a room exists, the success of
  the \<open>room.disconnect()\<close> this activation of \<open>stopSession\<close> waits for.
  \<open>remaining_start k pc me\<close>: every promise the activation \<open>k\<close> still waits for from \<open>pc\<close> up
  to the connect succeeds, the connect with the local identity \<open>me\<close>.
  \<open>remaining_failed k pc\<close>: the same, but the connect is rejected.
\<close>

fun connecting :: "start_pc \<Rightarrow> bool" where
  "connecting AwaitLocalTracks = True"
| "connecting (AwaitTokenResponse n) = True"
| "connecting (AwaitTokenBody n) = True"
| "connecting (AwaitConnect n r) = True"
| "connecting pc = False"

definition stop_events :: "state \<Rightarrow> session_event list" where
  "stop_events s =
     (if room s = None then [StopClick] else [StopClick, DisconnectResolved (length (stops s))])"

fun before_connect :: "nat \<Rightarrow> start_pc \<Rightarrow> session_event list" where
  "before_connect k AwaitLocalTracks =
     [LocalTracksResolved k 1, TokenResponse k True, TokenBodyResolved k]"
| "before_connect k (AwaitTokenResponse n) = [TokenResponse k True, TokenBodyResolved k]"
| "before_connect k (AwaitTokenBody n) = [TokenBodyResolved k]"
| "before_connect k pc = []"

definition remaining_start :: "nat \<Rightarrow> start_pc \<Rightarrow> jsstring \<Rightarrow> session_event list" where
  "remaining_start k pc me = before_connect k pc @ [ConnectResolved k me]"

definition remaining_failed :: "nat \<Rightarrow> start_pc \<Rightarrow> session_event list" where
  "remaining_failed k pc = before_connect k pc @ [ConnectRejected k]"

section \<open>Sample inputs\<close>

text \<open>
  Concrete inputs for the examples that follow the theorems.
  \<^item> \<open>message ty props\<close> is a protocol message with its type and further fields, and
    \<open>sample_parse\<close> a parser given by the table of the payloads it accepts.
  \<^item> \<open>sample_coercions\<close> writes the booleans and null as the platform does, throws for
    every array and object, and knows no sum; the examples need no more.
  \<^item> \<open>connected\<close> is the page after a session has started with the local identity \<open>me\<close>.
  \<^item> \<open>spoken\<close> is \<open>connected\<close> after the transport delivered the interim segment \<open>s1\<close>
    of the local participant saying \<open>hello\<close>; in \<open>heard\<close> that segment has become final.
  \<^item> \<open>streamed\<close> is \<open>connected\<close> after the assistant's fragments \<open>Hel\<close> and \<open>lo\<close> for the
    item \<open>r1\<close>.
  \<^item> \<open>typed\<close> is \<open>spoken\<close> after the user sent the text \<open>hi\<close> at millisecond 5, and
    \<open>stray_segment\<close> a transport segment whose id is the key of that message.
  \<^item> \<open>reconnecting\<close> is the page after two clicks on the start button in a row: the first
    start sequence has connected and shown the stop button, and the second, whose
    credential was resolved only then, has set the status back to connecting and waits
    for the microphone. \<open>stopped\<close> is that page after a click on the stop button and the
    success of the disconnect.
  \<^item> \<open>answered\<close> is \<open>heard\<close> after a delta message for the item \<open>r3\<close> whose fragment is
    the boolean \<open>true\<close> instead of a string.
\<close>

definition message :: "jsstring \<Rightarrow> (jsstring \<times> json) list \<Rightarrow> json" where
  "message ty props = JObj ((js ''type'', JStr ty) # props)"

definition completed_empty :: json where
  "completed_empty = message type_completed [(js ''item_id'', JStr (js ''s1''))]"

definition done_empty :: json where
  "done_empty =
     message type_done [(js ''item_id'', JStr (js ''s1'')), (js ''transcript'', JStr [])]"

definition completed_hello :: json where
  "completed_hello =
     message type_completed
       [(js ''item_id'', JStr (js ''p1'')), (js ''transcript'', JStr (js ''Hello there''))]"

definition delta_hel :: json where
  "delta_hel =
     message type_delta [(js ''item_id'', JStr (js ''r1'')), (js ''delta'', JStr (js ''Hel''))]"

definition delta_lo :: json where
  "delta_lo =
     message type_delta [(js ''item_id'', JStr (js ''r1'')), (js ''delta'', JStr (js ''lo''))]"

definition done_hello :: json where
  "done_hello =
     message type_done
       [(js ''item_id'', JStr (js ''r1'')), (js ''transcript'', JStr (js ''Hello!''))]"

definition done_silent :: json where
  "done_silent = message type_done [(js ''item_id'', JStr (js ''r1''))]"

definition delta_x :: json where
  "delta_x =
     message type_delta [(js ''item_id'', JStr (js ''s1'')), (js ''delta'', JStr (js ''X''))]"

definition delta_nothing :: json where
  "delta_nothing =
     message type_delta [(js ''item_id'', JStr (js ''r2'')), (js ''delta'', JStr [])]"

definition delta_true :: json where
  "delta_true =
     message type_delta [(js ''item_id'', JStr (js ''r3'')), (js ''delta'', JBool True)]"

definition sample_parse :: "jsstring \<Rightarrow> json option" where
  "sample_parse =
     map_of
       [(js ''a'', completed_empty),
        (js ''b'', done_empty),
        (js ''c'', completed_hello),
        (js ''d1'', delta_hel),
        (js ''d2'', delta_lo),
        (js ''e'', done_hello),
        (js ''f'', done_silent),
        (js ''g'', delta_x),
        (js ''h'', delta_nothing),
        (js ''t'', delta_true),
        (js ''x'', message (js ''session.updated'') [])]"

definition sample_coercions :: coercions where
  "sample_coercions =
     \<lparr>to_text = (\<lambda>v. if v = JBool True then Some (js ''true'')
                      else if v = JBool False then Some (js ''false'')
                      else if v = JNull then Some (js ''null'')
                      else None),
      add_values = (\<lambda>a b. None)\<rparr>"

definition connected :: state where
  "connected =
     initial\<lparr>localParticipantIdentity := Some (js ''me''), room := Some RoomConnected,
             roomsCreated := 1, sdkReady := True, status := StatusConnected,
             stopShown := True, startDisabled := True, textInputShown := True,
             starts := [Finished]\<rparr>"

definition hello_entry :: entry where
  "hello_entry =
     \<lparr>role = User, segmentId = js ''s1'', roleLabel = label_you, bubbleText = js ''hello'',
      interim = True, entry_text = JStr (js ''hello'')\<rparr>"

definition spoken :: state where
  "spoken =
     connected\<lparr>emptyShown := False, children := [0], heap := [hello_entry],
               segmentElements := [JStr (js ''s1'') \<mapsto> 0], lastUserSpeechEntry := Some 0\<rparr>"

definition hello_segment :: segment where
  "hello_segment = \<lparr>seg_id = js ''s1'', seg_text = Some (js ''hello''), seg_final = False\<rparr>"

definition hello_reply :: entry where
  "hello_reply =
     \<lparr>role = Assistant, segmentId = js ''r1'', roleLabel = label_grok,
      bubbleText = js ''Hello'', interim = True, entry_text = JStr (js ''Hello'')\<rparr>"

definition streamed :: state where
  "streamed =
     connected\<lparr>emptyShown := False, children := [0], heap := [hello_reply],
               segmentElements := [JStr (js ''r1'') \<mapsto> 0]\<rparr>"

definition hello_final :: segment where
  "hello_final = \<lparr>seg_id = js ''s1'', seg_text = Some (js ''hello''), seg_final = True\<rparr>"

definition heard :: state where
  "heard = spoken\<lparr>heap := [hello_entry\<lparr>interim := False\<rparr>]\<rparr>"

definition true_entry :: entry where
  "true_entry =
     \<lparr>role = Assistant, segmentId = js ''r3'', roleLabel = label_grok,
      bubbleText = js ''true'', interim = True, entry_text = JBool True\<rparr>"

definition answered :: state where
  "answered =
     heard\<lparr>heap := [hello_entry\<lparr>interim := False\<rparr>, true_entry], children := [0, 1],
           segmentElements := [JStr (js ''s1'') \<mapsto> 0, JStr (js ''r3'') \<mapsto> 1]\<rparr>"

definition hi_entry :: entry where
  "hi_entry =
     \<lparr>role = User, segmentId = js ''text-user-5'', roleLabel = label_you,
      bubbleText = js ''hi'', interim = False, entry_text = JStr (js ''hi'')\<rparr>"

definition typed :: state where
  "typed =
     spoken\<lparr>heap := [hello_entry, hi_entry], children := [0, 1],
            segmentElements := [JStr (js ''s1'') \<mapsto> 0, JStr (js ''text-user-5'') \<mapsto> 1],
            published := [([0x68, 0x69], js ''grok.chat'')]\<rparr>"

definition stray_segment :: segment where
  "stray_segment =
     \<lparr>seg_id = js ''text-user-5'', seg_text = Some (js ''bye''), seg_final = True\<rparr>"

definition reconnecting :: state where
  "reconnecting = connected\<lparr>status := StatusConnecting, starts := [Finished, AwaitLocalTracks]\<rparr>"

definition stopped :: state where
  "stopped =
     reconnecting\<lparr>localParticipantIdentity := None, room := Some RoomDisconnected,
                  status := StatusNone, stopShown := False, startDisabled := False,
                  textInputShown := False, stops := [None]\<rparr>"

section \<open>Facts about the handlers\<close>

lemma connected_reached:
  "session_run
     [StartClick True, PublicKeyResolved 0 (Some (js ''key'')) True, LocalTracksResolved 0 1,
      TokenResponse 0 True, TokenBodyResolved 0, ConnectResolved 0 (js ''me''),
      PublishResolved 0]
     initial = Some connected"
  by (simp add: initial_def connected_def clearTranscript_def pc_at_def set_pc_def
      transport_def)

lemma spoken_reached:
  "handleTranscription [hello_segment] (Some (js ''me'')) connected = spoken"
  by (simp add: handleTranscription_def handleSegment_def hideTranscriptEmpty_def isLocal_def
      spoken_def connected_def initial_def hello_entry_def hello_segment_def js_def Let_def)

lemma get_prop_truthy: "get_prop data k = Some v \<Longrightarrow> truthy data"
  by (cases data) simp_all

lemma type_names_distinct:
  "type_completed \<noteq> type_delta" "type_completed \<noteq> type_done" "type_delta \<noteq> type_done"
  "type_delta \<noteq> type_completed" "type_done \<noteq> type_completed" "type_done \<noteq> type_delta"
  "type_completed \<noteq> []" "type_delta \<noteq> []" "type_done \<noteq> []"
  by (simp_all add: type_completed_def type_delta_def type_done_def js_def)

lemma or_else_lacks: "lacks data field \<Longrightarrow> or_else (get_prop data field) d = d"
  by (simp add: lacks_def or_else_def split: option.splits)

lemma or_else_str: "or_else (Some (JStr v)) d = (if v = [] then d else JStr v)"
  by (simp add: or_else_def)

lemma ToString_str [simp]: "ToString co (JStr t) = Some t"
  by (simp add: ToString_def)

lemma js_plus_str [simp]: "js_plus co (JStr x) (JStr y) = Some (JStr (x @ y))"
  by (simp add: js_plus_def)

lemma find_entry_str [simp]: "find_entry s (JStr i) = segmentElements s (JStr i)"
  by (simp add: find_entry_def)

lemma file_entry_str [simp]:
  "file_entry (JStr i) a s = s\<lparr>segmentElements := (segmentElements s)(JStr i \<mapsto> a)\<rparr>"
  by (simp add: file_entry_def)

lemma handleDataMessage_no_container:
  "\<not> hasContainer s \<Longrightarrow> handleDataMessage parse co now txt s = Inr s"
  by (simp add: handleDataMessage_def)

lemma handleDataMessage_completed:
  assumes "hasContainer s" "carries parse txt type_completed = Some data"
  shows "handleDataMessage parse co now txt s = Inr (state_of (completed_branch co now data s))"
  using assms
  by (auto simp: handleDataMessage_def carries_def type_names_distinct
      dest: get_prop_truthy split: option.splits if_splits)

lemma handleDataMessage_delta:
  assumes "hasContainer s" "carries parse txt type_delta = Some data"
  shows "handleDataMessage parse co now txt s = Inr (state_of (delta_branch co now data s))"
  using assms
  by (auto simp: handleDataMessage_def carries_def type_names_distinct
      dest: get_prop_truthy split: option.splits if_splits)

lemma handleDataMessage_done:
  assumes "hasContainer s" "carries parse txt type_done = Some data"
  shows "handleDataMessage parse co now txt s = Inr (state_of (done_branch co now data s))"
  using assms
  by (auto simp: handleDataMessage_def carries_def type_names_distinct
      dest: get_prop_truthy split: option.splits if_splits)

lemma appendTranscriptBubble_container:
  "hasContainer s \<Longrightarrow>
   appendTranscriptBubble co (JStr i) r lbl (JStr t) intr s =
     Returned (s\<lparr>emptyShown := False,
            heap := heap s @ [\<lparr>role = r, segmentId = i, roleLabel = lbl, bubbleText = t,
                               interim = intr, entry_text = JStr t\<rparr>],
            children := children s @ [length (heap s)],
            segmentElements := (segmentElements s)(JStr i \<mapsto> length (heap s))\<rparr>)"
  by (simp add: appendTranscriptBubble_def hideTranscriptEmpty_def Let_def)

lemma update_entry_simps [simp]:
  "heap (update_entry a f s) = (heap s)[a := f (heap s ! a)]"
  "segmentElements (update_entry a f s) = segmentElements s"
  "lastUserSpeechEntry (update_entry a f s) = lastUserSpeechEntry s"
  "children (update_entry a f s) = children s"
  "hasContainer (update_entry a f s) = hasContainer s"
  "localParticipantIdentity (update_entry a f s) = localParticipantIdentity s"
  by (simp_all add: update_entry_def)

lemma nth_list_update_any:
  "(xs[a := x]) ! b = (if a = b \<and> a < length xs then x else xs ! b)"
  by (cases "a < length xs") (auto simp: list_update_beyond)

lemma handleSegment_not_local:
  assumes "assistant_only s0 s"
  shows "assistant_only s0 (handleSegment False seg s)"
proof (cases "segmentElements s (JStr (seg_id seg))")
  case None
  with assms show ?thesis
    by (auto simp: assistant_only_def handleSegment_def Let_def nth_append)
next
  case (Some a)
  with assms show ?thesis
    by (simp add: assistant_only_def handleSegment_def Let_def nth_list_update_any)
qed

lemma foldl_not_local:
  "assistant_only s0 s \<Longrightarrow>
   assistant_only s0 (foldl (\<lambda>s' seg. handleSegment False seg s') s segs)"
  by (induction segs arbitrary: s) (simp_all add: handleSegment_not_local)

lemma trim_hi: "trim (js '' hi '') = js ''hi''"
  by (simp add: trim_def js_def js_whitespace_def)

lemma encode_hi: "TextEncoder_encode (js ''hi'') = [0x68, 0x69]"
  by (simp add: TextEncoder_encode_def utf8_of_scalar_def high_surrogate_def low_surrogate_def
      js_def)

lemma typed_reached: "sendTextMessage co 5 (js '' hi '') spoken = Inr typed"
  by (simp add: sendTextMessage_def appendTranscriptBubble_def hideTranscriptEmpty_def Let_def
      typed_def spoken_def connected_def initial_def hi_entry_def decimal.simps digit_def
      trim_def js_whitespace_def TextEncoder_encode_def utf8_of_scalar_def
      high_surrogate_def low_surrogate_def js_def)

lemma delta_known:
  assumes "hasContainer s" "delta_of parse i (now, txt) f" "i \<noteq> []"
    and "segmentElements s (JStr i) = Some a" "entry_text (heap s ! a) = JStr t"
    and "a < length (heap s)"
  shows "handleDataMessage parse co now txt s =
     Inr (if f = [] then s else update_entry a (append_text t f) s)"
  using assms
  by (auto simp: delta_of_def handleDataMessage_delta delta_branch_def or_else_str Let_def
      append_text_def update_entry_def split: option.splits)

lemma delta_unknown:
  assumes "hasContainer s" "delta_of parse i (now, txt) f" "i \<noteq> []"
    and "segmentElements s (JStr i) = None"
  shows "handleDataMessage parse co now txt s =
     Inr (if f = [] then s
          else s\<lparr>emptyShown := False,
                 heap := heap s @ [\<lparr>role = Assistant, segmentId = i, roleLabel = label_grok,
                                    bubbleText = f, interim = True, entry_text = JStr f\<rparr>],
                 children := children s @ [length (heap s)],
                 segmentElements := (segmentElements s)(JStr i \<mapsto> length (heap s))\<rparr>)"
  using assms
  by (auto simp: delta_of_def handleDataMessage_delta delta_branch_def or_else_str Let_def
      appendTranscriptBubble_container split: option.splits)

lemma after_messages_Cons:
  "after_messages parse co (d # ds) s = after_messages parse co ds (after_message parse co d s)"
  by (simp add: after_messages_def)

lemma deltas_known:
  assumes "list_all2 (delta_of parse i) ds fs" "i \<noteq> []"
    and "hasContainer s" "segmentElements s (JStr i) = Some a" "a < length (heap s)"
    and "entry_text (heap s ! a) = JStr t" "bubbleText (heap s ! a) = t"
  shows "hasContainer (after_messages parse co ds s) \<and>
     segmentElements (after_messages parse co ds s) (JStr i) = Some a \<and>
     a < length (heap (after_messages parse co ds s)) \<and>
     heap (after_messages parse co ds s) ! a =
       (heap s ! a)\<lparr>bubbleText := t @ concat fs, entry_text := JStr (t @ concat fs)\<rparr>"
  using assms
proof (induction ds fs arbitrary: s t rule: list_all2_induct)
  case Nil
  then show ?case by (simp add: after_messages_def)
next
  case (Cons d ds f fs)
  obtain now p where d: "d = (now, p)" by (cases d)
  let ?s' = "if f = [] then s else update_entry a (append_text t f) s"
  have step: "after_message parse co d s = ?s'"
    using Cons.hyps(1) Cons.prems d by (simp add: after_message_def delta_known)
  have pre: "hasContainer ?s'" "segmentElements ?s' (JStr i) = Some a" "a < length (heap ?s')"
    "entry_text (heap ?s' ! a) = JStr (t @ f)" "bubbleText (heap ?s' ! a) = t @ f"
    using Cons.prems by (simp_all add: append_text_def)
  from Cons.IH [OF Cons.prems(1) pre] Cons.prems(4)
  show ?case
    by (simp add: after_messages_Cons step append_text_def)
qed

lemma deltas_unknown:
  assumes "list_all2 (delta_of parse i) ds fs" "i \<noteq> []"
    and "hasContainer s" "segmentElements s (JStr i) = None" "concat fs \<noteq> []"
  shows "hasContainer (after_messages parse co ds s) \<and>
     segmentElements (after_messages parse co ds s) (JStr i) = Some (length (heap s)) \<and>
     length (heap s) < length (heap (after_messages parse co ds s)) \<and>
     heap (after_messages parse co ds s) ! length (heap s) =
       \<lparr>role = Assistant, segmentId = i, roleLabel = label_grok, bubbleText = concat fs,
        interim = True, entry_text = JStr (concat fs)\<rparr>"
  using assms
proof (induction ds fs arbitrary: s rule: list_all2_induct)
  case Nil
  then show ?case by simp
next
  case (Cons d ds f fs)
  obtain now p where d: "d = (now, p)" by (cases d)
  show ?case
  proof (cases "f = []")
    case True
    then have step: "after_message parse co d s = s"
      using Cons.hyps(1) Cons.prems d by (simp add: after_message_def delta_unknown)
    from True Cons.prems have "concat fs \<noteq> []" by simp
    from Cons.IH [OF Cons.prems(1,2,3) this] step True show ?thesis
      by (simp add: after_messages_Cons)
  next
    case False
    let ?a = "length (heap s)"
    let ?s' = "s\<lparr>emptyShown := False,
                 heap := heap s @ [\<lparr>role = Assistant, segmentId = i, roleLabel = label_grok,
                                    bubbleText = f, interim = True, entry_text = JStr f\<rparr>],
                 children := children s @ [length (heap s)],
                 segmentElements := (segmentElements s)(JStr i \<mapsto> length (heap s))\<rparr>"
    have step: "after_message parse co d s = ?s'"
      using False Cons.hyps(1) Cons.prems d by (simp add: after_message_def delta_unknown)
    have pre: "hasContainer ?s'" "segmentElements ?s' (JStr i) = Some ?a" "?a < length (heap ?s')"
      "entry_text (heap ?s' ! ?a) = JStr f" "bubbleText (heap ?s' ! ?a) = f"
      using Cons.prems by simp_all
    from deltas_known [OF Cons.hyps(2) Cons.prems(1) pre, of co]
    show ?thesis
      by (simp add: after_messages_Cons step)
  qed
qed

lemma done_known:
  assumes "hasContainer s" "carries parse txt type_done = Some data"
    and "get_prop data (js ''item_id'') = Some (JStr i)" "i \<noteq> []"
    and "segmentElements s (JStr i) = Some a" "a < length (heap s)"
  shows "get_prop data (js ''transcript'') = Some (JStr S) \<Longrightarrow> S \<noteq> [] \<Longrightarrow>
      handleDataMessage parse co now txt s =
        Inr (update_entry a
               (\<lambda>e. e\<lparr>entry_text := JStr S, bubbleText := S, interim := False\<rparr>) s)"
    and "lacks data (js ''transcript'') \<Longrightarrow>
      handleDataMessage parse co now txt s = Inr (update_entry a (\<lambda>e. e\<lparr>interim := False\<rparr>) s)"
  using assms
  by (simp_all add: handleDataMessage_done done_branch_def or_else_str or_else_lacks Let_def
      update_entry_def)

lemma done_unknown_silent:
  assumes "hasContainer s" "carries parse txt type_done = Some data"
    and "get_prop data (js ''item_id'') = Some (JStr i)" "i \<noteq> []"
    and "segmentElements s (JStr i) = None"
    and "lacks data (js ''transcript'')"
  shows "handleDataMessage parse co now txt s = Inr s"
  using assms
  by (simp_all add: handleDataMessage_done done_branch_def or_else_str or_else_lacks Let_def)

lemma streamed_reached:
  "after_messages sample_parse sample_coercions [(1, js ''d1''), (2, js ''d2'')] connected
     = streamed"
  by (simp add: after_messages_def after_message_def handleDataMessage_def sample_parse_def
      delta_hel_def delta_lo_def message_def
      type_names_distinct delta_branch_def or_else_def
      appendTranscriptBubble_def hideTranscriptEmpty_def Let_def update_entry_def
      streamed_def connected_def initial_def hello_reply_def js_def)

lemma wf_initial: "wf initial"
  by (simp add: wf_def initial_def)

lemma wf_handleSegment: "wf s \<Longrightarrow> wf (handleSegment loc sg s)"
  by (auto simp: wf_def handleSegment_def Let_def less_Suc_eq split: option.splits)

lemma wf_foldl_handleSegment:
  "wf s \<Longrightarrow> wf (foldl (\<lambda>s' seg. handleSegment loc seg s') s segs)"
  by (induction segs arbitrary: s) (simp_all add: wf_handleSegment)

lemma wf_hideTranscriptEmpty: "wf s \<Longrightarrow> wf (hideTranscriptEmpty s)"
  by (simp add: wf_def hideTranscriptEmpty_def)

lemma wf_handleTranscription: "wf s \<Longrightarrow> wf (handleTranscription segs p s)"
  by (simp add: handleTranscription_def wf_foldl_handleSegment wf_hideTranscriptEmpty)

lemma wf_clearTranscript: "wf s \<Longrightarrow> wf (clearTranscript s)"
  by (simp add: wf_def clearTranscript_def)

lemma wf_update_entry: "wf s \<Longrightarrow> wf (update_entry a f s)"
  by (simp add: wf_def)

lemma wf_file_entry: "wf s \<Longrightarrow> a < length (heap s) \<Longrightarrow> wf (file_entry k a s)"
  by (simp add: wf_def file_entry_def)

lemma wf_appendTranscriptBubble:
  "wf s \<Longrightarrow> wf (state_of (appendTranscriptBubble co i r lbl t intr s))"
  by (auto simp: wf_def appendTranscriptBubble_def hideTranscriptEmpty_def file_entry_def
      Let_def less_Suc_eq split: option.splits)

lemma wf_completed_branch: "wf s \<Longrightarrow> wf (state_of (completed_branch co now data s))"
  by (auto simp: completed_branch_def Let_def wf_update_entry wf_appendTranscriptBubble
      split: option.splits)
    (auto simp: wf_def file_entry_def)

lemma wf_delta_branch: "wf s \<Longrightarrow> wf (state_of (delta_branch co now data s))"
  by (auto simp: delta_branch_def Let_def wf_update_entry wf_appendTranscriptBubble
      split: option.splits)

lemma wf_done_branch: "wf s \<Longrightarrow> wf (state_of (done_branch co now data s))"
  by (auto simp: done_branch_def Let_def wf_update_entry wf_appendTranscriptBubble
      split: option.splits)

lemma handleDataMessage_cases:
  assumes "handleDataMessage parse co now txt s = Inr s'"
  shows "s' = s \<or> (\<exists>data. s' = state_of (completed_branch co now data s) \<or>
     s' = state_of (delta_branch co now data s) \<or> s' = state_of (done_branch co now data s))"
  using assms
  by (auto simp: handleDataMessage_def split: if_splits option.splits)

lemma handleDataMessage_Inr: "\<exists>s'. handleDataMessage parse co now txt s = Inr s'"
  by (auto simp: handleDataMessage_def split: option.splits)

lemma wf_handleDataMessage:
  "handleDataMessage parse co now txt s = Inr s' \<Longrightarrow> wf s \<Longrightarrow> wf s'"
  by (auto dest!: handleDataMessage_cases simp: wf_completed_branch wf_delta_branch wf_done_branch)

lemma sendTextMessage_cases:
  assumes "sendTextMessage co now txt s = Inr s'"
  shows "s' = s \<or>
     (\<exists>s1. appendTranscriptBubble co (JStr (js ''text-user-'' @ decimal now)) User label_you
             (JStr (trim txt)) False s = Returned s1 \<and>
           s' = s1\<lparr>published := published s1 @ [(TextEncoder_encode (trim txt), js ''grok.chat'')]\<rparr>)"
  using assms
  by (auto simp: sendTextMessage_def Let_def split: if_splits completion.splits)

lemma wf_sendTextMessage: "sendTextMessage co now txt s = Inr s' \<Longrightarrow> wf s \<Longrightarrow> wf s'"
proof -
  assume a: "sendTextMessage co now txt s = Inr s'" "wf s"
  from sendTextMessage_cases [OF a(1)] show "wf s'"
  proof
    assume "s' = s" with a show ?thesis by simp
  next
    assume "\<exists>s1. appendTranscriptBubble co (JStr (js ''text-user-'' @ decimal now)) User label_you
             (JStr (trim txt)) False s = Returned s1 \<and>
           s' = s1\<lparr>published := published s1 @ [(TextEncoder_encode (trim txt), js ''grok.chat'')]\<rparr>"
    then obtain s1 where s1: "appendTranscriptBubble co (JStr (js ''text-user-'' @ decimal now)) User label_you
             (JStr (trim txt)) False s = Returned s1"
      "s' = s1\<lparr>published := published s1 @ [(TextEncoder_encode (trim txt), js ''grok.chat'')]\<rparr>"
      by blast
    from wf_appendTranscriptBubble [OF a(2), of co "JStr (js ''text-user-'' @ decimal now)" User
        label_you "JStr (trim txt)" False] s1(1)
    have "wf s1" by simp
    with s1(2) show ?thesis by (simp add: wf_def)
  qed
qed

lemma session_step_transcript:
  assumes "session_step ev s = Some s'"
  shows "heap s' = heap s \<and> hasContainer s' = hasContainer s \<and>
    (segmentElements s' = segmentElements s \<and> lastUserSpeechEntry s' = lastUserSpeechEntry s \<and>
       children s' = children s \<or>
     segmentElements s' = Map.empty \<and> lastUserSpeechEntry s' = None \<and> children s' = [])"
  using assms
  by (cases ev)
    (auto simp: resetUI_def start_failed_def set_pc_def transport_def clearTranscript_def Let_def
      split: if_splits start_pc.splits option.splits)

lemma wf_session_step: "session_step ev s = Some s' \<Longrightarrow> wf s \<Longrightarrow> wf s'"
  by (drule session_step_transcript) (auto simp: wf_def)

lemma wf_handle_event: "handle_event parse co ev s = Some s' \<Longrightarrow> wf s \<Longrightarrow> wf s'"
  by (cases ev)
    (auto simp: wf_handleTranscription wf_clearTranscript split: sum.splits option.splits
      dest: wf_handleDataMessage wf_sendTextMessage wf_session_step)

lemma wf_run: "run parse co evs s = Some s' \<Longrightarrow> wf s \<Longrightarrow> wf s'"
  by (induction evs arbitrary: s) (auto split: option.splits dest: wf_handle_event)

lemma settled_handleSegment: "settled a s \<Longrightarrow> settled a (handleSegment loc sg s)"
  by (auto simp: settled_def handleSegment_def Let_def nth_list_update_any nth_append
      split: option.splits)

lemma settled_foldl_handleSegment:
  "settled a s \<Longrightarrow> settled a (foldl (\<lambda>s' seg. handleSegment loc seg s') s segs)"
  by (induction segs arbitrary: s) (simp_all add: settled_handleSegment)

lemma settled_hideTranscriptEmpty: "settled a (hideTranscriptEmpty s) = settled a s"
  by (simp add: settled_def hideTranscriptEmpty_def)

lemma settled_handleTranscription: "settled a s \<Longrightarrow> settled a (handleTranscription segs p s)"
  by (simp add: handleTranscription_def settled_foldl_handleSegment settled_hideTranscriptEmpty)

lemma settled_update_entry:
  "(\<And>e. \<not> interim e \<Longrightarrow> \<not> interim (f e)) \<Longrightarrow> settled a s \<Longrightarrow> settled a (update_entry b f s)"
  by (simp add: settled_def nth_list_update_any)

lemma settled_file_entry: "settled a (file_entry k b s) = settled a s"
  by (simp add: settled_def file_entry_def)

lemma settled_appendTranscriptBubble:
  "settled a s \<Longrightarrow> settled a (state_of (appendTranscriptBubble co i r lbl t intr s))"
  by (auto simp: settled_def appendTranscriptBubble_def hideTranscriptEmpty_def file_entry_def
      Let_def nth_append split: option.splits)

lemma settled_completed_branch:
  "settled a s \<Longrightarrow> settled a (state_of (completed_branch co now data s))"
  by (auto simp: completed_branch_def Let_def set_final_text_def settled_update_entry
      settled_appendTranscriptBubble settled_file_entry split: option.splits)
    (simp_all add: settled_def nth_list_update_any file_entry_def set_final_text_def)

lemma settled_delta_branch:
  "settled a s \<Longrightarrow> settled a (state_of (delta_branch co now data s))"
  by (auto simp: delta_branch_def Let_def settled_update_entry settled_appendTranscriptBubble
      split: option.splits)

lemma settled_done_branch:
  "settled a s \<Longrightarrow> settled a (state_of (done_branch co now data s))"
  by (auto simp: done_branch_def Let_def settled_update_entry settled_appendTranscriptBubble
      split: option.splits)

lemma settled_handleDataMessage:
  "handleDataMessage parse co now txt s = Inr s' \<Longrightarrow> settled a s \<Longrightarrow> settled a s'"
  by (auto dest!: handleDataMessage_cases
      simp: settled_completed_branch settled_delta_branch settled_done_branch)

lemma settled_sendTextMessage:
  assumes "sendTextMessage co now txt s = Inr s'" "settled a s"
  shows "settled a s'"
proof -
  from sendTextMessage_cases [OF assms(1)] show ?thesis
  proof
    assume "s' = s" with assms show ?thesis by simp
  next
    assume "\<exists>s1. appendTranscriptBubble co (JStr (js ''text-user-'' @ decimal now)) User label_you
             (JStr (trim txt)) False s = Returned s1 \<and>
           s' = s1\<lparr>published := published s1 @ [(TextEncoder_encode (trim txt), js ''grok.chat'')]\<rparr>"
    then obtain s1 where s1: "appendTranscriptBubble co (JStr (js ''text-user-'' @ decimal now)) User label_you
             (JStr (trim txt)) False s = Returned s1"
      "s' = s1\<lparr>published := published s1 @ [(TextEncoder_encode (trim txt), js ''grok.chat'')]\<rparr>"
      by blast
    from settled_appendTranscriptBubble [OF assms(2), of co "JStr (js ''text-user-'' @ decimal now)"
        User label_you "JStr (trim txt)" False] s1(1)
    have "settled a s1" by simp
    with s1(2) show ?thesis by (simp add: settled_def)
  qed
qed

lemma settled_handle_event:
  "handle_event parse co ev s = Some s' \<Longrightarrow> settled a s \<Longrightarrow> settled a s'"
proof (cases ev)
  case (Session sev)
  assume "handle_event parse co ev s = Some s'" "settled a s"
  with Session show ?thesis
    by (auto simp: settled_def split: option.splits dest!: session_step_transcript)
qed (auto simp: settled_handleTranscription split: sum.splits
      dest: settled_handleDataMessage settled_sendTextMessage,
     simp add: settled_def clearTranscript_def)

lemma settled_run: "run parse co evs s = Some s' \<Longrightarrow> settled a s \<Longrightarrow> settled a s'"
  by (induction evs arbitrary: s) (auto split: option.splits dest: settled_handle_event)

lemma handleSegment_keeps_key:
  "segmentElements s k = Some a \<Longrightarrow> segmentElements (handleSegment loc sg s) k = Some a"
  by (auto simp: handleSegment_def Let_def split: option.splits)

lemma final_under_handleSegment:
  "final_under i a s \<Longrightarrow> final_under i a (handleSegment loc sg s)"
  by (simp add: final_under_def handleSegment_keeps_key settled_handleSegment)

lemma final_under_foldl:
  "final_under i a s \<Longrightarrow> final_under i a (foldl (\<lambda>s' seg. handleSegment loc seg s') s segs)"
  by (induction segs arbitrary: s) (simp_all add: final_under_handleSegment)

lemma final_segment_settles:
  assumes "wf s" "seg_final sg"
  shows "\<exists>a. final_under (seg_id sg) a (handleSegment loc sg s)"
proof (cases "segmentElements s (JStr (seg_id sg))")
  case None
  with assms show ?thesis
    by (simp add: final_under_def settled_def handleSegment_def Let_def)
next
  case (Some a)
  with assms have "a < length (heap s)" by (simp add: wf_def)
  with Some assms show ?thesis
    by (simp add: final_under_def settled_def handleSegment_def Let_def)
qed

lemma final_in_fold:
  assumes "wf s" "\<exists>sg \<in> set segs. seg_id sg = i \<and> seg_final sg"
  shows "\<exists>a. final_under i a (foldl (\<lambda>s' seg. handleSegment loc seg s') s segs)"
  using assms
proof (induction segs arbitrary: s)
  case Nil
  then show ?case by simp
next
  case (Cons sg segs)
  show ?case
  proof (cases "seg_id sg = i \<and> seg_final sg")
    case True
    with Cons.prems(1) obtain a where "final_under i a (handleSegment loc sg s)"
      using final_segment_settles by blast
    then have "final_under i a (foldl (\<lambda>s' seg. handleSegment loc seg s')
        (handleSegment loc sg s) segs)"
      by (rule final_under_foldl)
    then show ?thesis by auto
  next
    case False
    with Cons.prems(2) have "\<exists>sg \<in> set segs. seg_id sg = i \<and> seg_final sg" by auto
    from Cons.IH [OF wf_handleSegment [OF Cons.prems(1)] this] show ?thesis by simp
  qed
qed

lemma hasContainer_handleSegment [simp]:
  "hasContainer (handleSegment loc sg s) = hasContainer s"
  by (simp add: handleSegment_def Let_def update_entry_def split: option.splits)

lemma hasContainer_foldl [simp]:
  "hasContainer (foldl (\<lambda>s' seg. handleSegment loc seg s') s segs) = hasContainer s"
  by (induction segs arbitrary: s) simp_all

lemma hasContainer_handleTranscription [simp]:
  "hasContainer (handleTranscription segs p s) = hasContainer s"
  by (simp add: handleTranscription_def hideTranscriptEmpty_def)

lemma final_under_hideTranscriptEmpty:
  "final_under i a (hideTranscriptEmpty s) = final_under i a s"
  by (simp add: final_under_def settled_def hideTranscriptEmpty_def)

lemma final_under_handleTranscription:
  "final_under i a s \<Longrightarrow> final_under i a (handleTranscription segs p s)"
  by (simp add: handleTranscription_def final_under_foldl final_under_hideTranscriptEmpty)

lemma final_in_batch:
  assumes "hasContainer s" "wf s" "\<exists>sg \<in> set segs. seg_id sg = i \<and> seg_final sg"
  shows "\<exists>a. final_under i a (handleTranscription segs p s)"
proof -
  from assms(3) have "segs \<noteq> []" by auto
  with assms(1) final_in_fold [OF wf_hideTranscriptEmpty [OF assms(2)] assms(3)]
  show ?thesis by (simp add: handleTranscription_def)
qed

lemma final_under_batches:
  "final_under i a s \<Longrightarrow> \<exists>s1. run parse co (batch_events bs) s = Some s1 \<and> final_under i a s1"
  by (induction bs arbitrary: s)
    (auto simp: batch_events_def final_under_handleTranscription)

lemma final_in_batches:
  assumes "hasContainer s" "wf s"
    and "\<exists>b \<in> set bs. \<exists>sg \<in> set (fst b). seg_id sg = i \<and> seg_final sg"
  shows "\<exists>s1 a. run parse co (batch_events bs) s = Some s1 \<and> final_under i a s1"
  using assms
proof (induction bs arbitrary: s)
  case Nil
  then show ?case by simp
next
  case (Cons b bs)
  obtain segs p where b: "b = (segs, p)" by (cases b)
  have step: "run parse co (batch_events (b # bs)) s
      = run parse co (batch_events bs) (handleTranscription segs p s)"
    by (simp add: batch_events_def b)
  show ?case
  proof (cases "\<exists>sg \<in> set segs. seg_id sg = i \<and> seg_final sg")
    case True
    from final_in_batch [OF Cons.prems(1,2) True] obtain a
      where "final_under i a (handleTranscription segs p s)" by blast
    from final_under_batches [OF this] step show ?thesis by metis
  next
    case False
    with Cons.prems(3) b
    have "\<exists>b \<in> set bs. \<exists>sg \<in> set (fst b). seg_id sg = i \<and> seg_final sg" by auto
    from Cons.IH [OF _ wf_handleTranscription [OF Cons.prems(2)] this] Cons.prems(1) step
    show ?thesis by simp
  qed
qed

lemma wf_connected: "wf connected"
  by (simp add: wf_def connected_def initial_def)

lemma heard_reached:
  "run parse co (batch_events [([hello_segment], Some (js ''me'')),
      ([hello_final, hello_segment], Some (js ''me''))]) connected = Some heard"
  by (simp add: batch_events_def handleTranscription_def handleSegment_def
      hideTranscriptEmpty_def isLocal_def update_entry_def Let_def heard_def spoken_def
      connected_def initial_def hello_entry_def hello_segment_def hello_final_def js_def)

lemma answered_reached:
  "run sample_parse sample_coercions
     [TranscriptionReceived [hello_segment] None, DataReceived 4 (js ''f''),
      DataReceived 5 (js ''t'')] heard = Some answered"
  by (simp add: handleTranscription_def handleSegment_def handleDataMessage_def
      hideTranscriptEmpty_def isLocal_def update_entry_def Let_def answered_def heard_def
      spoken_def connected_def initial_def hello_entry_def hello_segment_def true_entry_def
      sample_parse_def done_silent_def delta_true_def message_def type_names_distinct
      done_branch_def delta_branch_def appendTranscriptBubble_def ToString_def
      sample_coercions_def find_entry_def file_entry_def
      or_else_def js_def)

lemma decimal_not_empty: "decimal n \<noteq> []"
  by (subst decimal.simps) simp

lemma unat_digit: "a < 10 \<Longrightarrow> unat (digit a) = 48 + a"
  by (simp add: digit_def unat_word_ariths unat_of_nat)

lemma digit_inj:
  assumes "a < 10" "b < 10" "digit a = digit b"
  shows "a = b"
proof -
  from assms(3) have "unat (digit a) = unat (digit b)" by (rule arg_cong)
  then have "48 + a = 48 + b"
    unfolding unat_digit [OF assms(1)] unat_digit [OF assms(2)] .
  then show ?thesis by (rule add_left_imp_eq)
qed

lemma decimal_small: "n < 10 \<Longrightarrow> decimal n = [digit n]"
  by (subst decimal.simps) simp

lemma decimal_big: "\<not> n < 10 \<Longrightarrow> decimal n = decimal (n div 10) @ [digit (n mod 10)]"
  by (subst decimal.simps) simp

lemma decimal_inj: "decimal n = decimal m \<Longrightarrow> n = m"
proof (induction n arbitrary: m rule: decimal.induct)
  case (1 n)
  show ?case
  proof (cases "n < 10")
    case True
    show ?thesis
    proof (cases "m < 10")
      case m: True
      from "1.prems" have "digit n = digit m"
        unfolding decimal_small [OF True] decimal_small [OF m] by simp
      with True m show ?thesis by (simp add: digit_inj)
    next
      case False
      from "1.prems" have "[digit n] = decimal (m div 10) @ [digit (m mod 10)]"
        unfolding decimal_small [OF True] decimal_big [OF False] .
      with decimal_not_empty [of "m div 10"] show ?thesis by simp
    qed
  next
    case False
    show ?thesis
    proof (cases "m < 10")
      case True
      from "1.prems" have "decimal (n div 10) @ [digit (n mod 10)] = [digit m]"
        unfolding decimal_small [OF True] decimal_big [OF False] .
      with decimal_not_empty [of "n div 10"] show ?thesis by simp
    next
      case m: False
      from "1.prems"
      have "decimal (n div 10) @ [digit (n mod 10)] = decimal (m div 10) @ [digit (m mod 10)]"
        unfolding decimal_big [OF False] decimal_big [OF m] .
      then have a: "decimal (n div 10) = decimal (m div 10)"
        and b: "digit (n mod 10) = digit (m mod 10)"
        by simp_all
      from "1.IH" [OF False a] have "n div 10 = m div 10" .
      moreover have "n mod 10 = m mod 10"
        by (rule digit_inj [OF _ _ b]) simp_all
      ultimately show ?thesis by (metis div_mult_mod_eq)
    qed
  qed
qed

lemma typed_key_inj: "typed_key n = typed_key m \<Longrightarrow> n = m"
  by (simp add: typed_key_def decimal_inj)

lemma typed_key_not_fallback:
  "js ''user-'' @ decimal m \<noteq> typed_key n" "js ''grok-'' @ decimal m \<noteq> typed_key n"
  by (simp_all add: typed_key_def js_def)

lemma or_else_neq: "v \<noteq> Some (JStr k) \<Longrightarrow> d \<noteq> JStr k \<Longrightarrow> or_else v d \<noteq> JStr k"
  by (auto simp: or_else_def split: option.splits)

text \<open>No handler makes an existing entry the pending user entry.\<close>

lemma not_pending_update_entry: "not_pending a (update_entry b f s) = not_pending a s"
  by (simp add: not_pending_def)

lemma not_pending_file_entry: "not_pending a (file_entry k b s) = not_pending a s"
  by (simp add: not_pending_def file_entry_def)

lemma not_pending_handleSegment: "not_pending a s \<Longrightarrow> not_pending a (handleSegment loc sg s)"
  by (auto simp: not_pending_def handleSegment_def Let_def split: option.splits)

lemma not_pending_foldl:
  "not_pending a s \<Longrightarrow> not_pending a (foldl (\<lambda>s' seg. handleSegment loc seg s') s segs)"
  by (induction segs arbitrary: s) (simp_all add: not_pending_handleSegment)

lemma not_pending_hideTranscriptEmpty: "not_pending a (hideTranscriptEmpty s) = not_pending a s"
  by (simp add: not_pending_def hideTranscriptEmpty_def)

lemma not_pending_handleTranscription:
  "not_pending a s \<Longrightarrow> not_pending a (handleTranscription segs p s)"
  by (simp add: handleTranscription_def not_pending_foldl not_pending_hideTranscriptEmpty)

lemma not_pending_appendTranscriptBubble:
  "not_pending a s \<Longrightarrow> not_pending a (state_of (appendTranscriptBubble co i r lbl t intr s))"
  by (auto simp: not_pending_def appendTranscriptBubble_def hideTranscriptEmpty_def file_entry_def
      Let_def split: option.splits)

lemma not_pending_completed_branch:
  "not_pending a s \<Longrightarrow> not_pending a (state_of (completed_branch co now data s))"
  by (auto simp: completed_branch_def Let_def not_pending_update_entry
      not_pending_appendTranscriptBubble split: option.splits)
    (simp_all add: not_pending_def file_entry_def)

lemma not_pending_delta_branch:
  "not_pending a s \<Longrightarrow> not_pending a (state_of (delta_branch co now data s))"
  by (auto simp: delta_branch_def Let_def not_pending_update_entry
      not_pending_appendTranscriptBubble split: option.splits)

lemma not_pending_done_branch:
  "not_pending a s \<Longrightarrow> not_pending a (state_of (done_branch co now data s))"
  by (auto simp: done_branch_def Let_def not_pending_update_entry
      not_pending_appendTranscriptBubble split: option.splits)

lemma not_pending_handleDataMessage:
  "handleDataMessage parse co now txt s = Inr s' \<Longrightarrow> not_pending a s \<Longrightarrow> not_pending a s'"
  by (auto dest!: handleDataMessage_cases
      simp: not_pending_completed_branch not_pending_delta_branch not_pending_done_branch)

lemma not_pending_sendTextMessage:
  assumes "sendTextMessage co now txt s = Inr s'" "not_pending a s"
  shows "not_pending a s'"
proof -
  from sendTextMessage_cases [OF assms(1)] show ?thesis
  proof
    assume "s' = s" with assms show ?thesis by simp
  next
    assume "\<exists>s1. appendTranscriptBubble co (JStr (js ''text-user-'' @ decimal now)) User label_you
             (JStr (trim txt)) False s = Returned s1 \<and>
           s' = s1\<lparr>published := published s1 @ [(TextEncoder_encode (trim txt), js ''grok.chat'')]\<rparr>"
    then obtain s1 where s1: "appendTranscriptBubble co (JStr (js ''text-user-'' @ decimal now)) User label_you
             (JStr (trim txt)) False s = Returned s1"
      "s' = s1\<lparr>published := published s1 @ [(TextEncoder_encode (trim txt), js ''grok.chat'')]\<rparr>"
      by blast
    from not_pending_appendTranscriptBubble [OF assms(2), of co "JStr (js ''text-user-'' @ decimal now)"
        User label_you "JStr (trim txt)" False] s1(1)
    have "not_pending a s1" by simp
    with s1(2) show ?thesis by (simp add: not_pending_def)
  qed
qed

lemma not_pending_handle_event:
  "handle_event parse co ev s = Some s' \<Longrightarrow> not_pending a s \<Longrightarrow> not_pending a s'"
proof (cases ev)
  case (Session sev)
  assume "handle_event parse co ev s = Some s'" "not_pending a s"
  with Session show ?thesis
    by (auto simp: not_pending_def split: option.splits dest!: session_step_transcript)
qed (auto simp: not_pending_handleTranscription split: sum.splits
      dest: not_pending_handleDataMessage not_pending_sendTextMessage,
     simp add: not_pending_def clearTranscript_def)

lemma not_pending_run:
  "run parse co evs s = Some s' \<Longrightarrow> not_pending a s \<Longrightarrow> not_pending a s'"
  by (induction evs arbitrary: s) (auto split: option.splits dest: not_pending_handle_event)

text \<open>An event that does not carry the key of an entry leaves the entry as it is.\<close>

lemma untouched_find:
  "untouched k a s \<Longrightarrow> i \<noteq> JStr k \<Longrightarrow> find_entry s i = Some b \<Longrightarrow> b \<noteq> a"
  by (auto simp: untouched_def find_entry_def split: if_splits)

lemma untouched_pending: "untouched k a s \<Longrightarrow> lastUserSpeechEntry s = Some b \<Longrightarrow> b \<noteq> a"
  by (auto simp: untouched_def not_pending_def)

lemma untouched_update_entry:
  "untouched k a s \<Longrightarrow> b \<noteq> a \<Longrightarrow>
   untouched k a (update_entry b f s) \<and> heap (update_entry b f s) ! a = heap s ! a"
  by (simp add: untouched_def not_pending_def nth_list_update_any)

lemma untouched_file_entry:
  "untouched k a s \<Longrightarrow> b \<noteq> a \<Longrightarrow>
   untouched k a (file_entry i b s) \<and> heap (file_entry i b s) ! a = heap s ! a"
  by (simp add: untouched_def not_pending_def file_entry_def)

lemma untouched_handleSegment:
  assumes "untouched k a s" "seg_id sg \<noteq> k"
  shows "untouched k a (handleSegment loc sg s) \<and> heap (handleSegment loc sg s) ! a = heap s ! a"
proof (cases "segmentElements s (JStr (seg_id sg))")
  case None
  with assms show ?thesis
    by (auto simp: untouched_def not_pending_def handleSegment_def Let_def nth_append)
next
  case (Some b)
  with assms have "b \<noteq> a" by (auto simp: untouched_def)
  with Some untouched_update_entry [OF assms(1) this] show ?thesis
    by (simp add: handleSegment_def Let_def)
qed

lemma untouched_foldl:
  "untouched k a s \<Longrightarrow> \<forall>sg \<in> set segs. seg_id sg \<noteq> k \<Longrightarrow>
   untouched k a (foldl (\<lambda>s' seg. handleSegment loc seg s') s segs) \<and>
   heap (foldl (\<lambda>s' seg. handleSegment loc seg s') s segs) ! a = heap s ! a"
proof (induction segs arbitrary: s)
  case Nil
  then show ?case by simp
next
  case (Cons sg segs)
  from Cons.prems have "untouched k a (handleSegment loc sg s)"
    and "heap (handleSegment loc sg s) ! a = heap s ! a"
    by (simp_all add: untouched_handleSegment)
  with Cons.IH [of "handleSegment loc sg s"] Cons.prems(2) show ?case by simp
qed

lemma untouched_hideTranscriptEmpty:
  "untouched k a (hideTranscriptEmpty s) = untouched k a s"
  "heap (hideTranscriptEmpty s) = heap s"
  by (simp_all add: untouched_def not_pending_def hideTranscriptEmpty_def)

lemma untouched_handleTranscription:
  "untouched k a s \<Longrightarrow> \<forall>sg \<in> set segs. seg_id sg \<noteq> k \<Longrightarrow>
   untouched k a (handleTranscription segs p s) \<and>
   heap (handleTranscription segs p s) ! a = heap s ! a"
  using untouched_foldl [of k a "hideTranscriptEmpty s" segs]
  by (simp add: handleTranscription_def untouched_hideTranscriptEmpty)

lemma untouched_appendTranscriptBubble:
  "untouched k a s \<Longrightarrow>
   untouched k a (state_of (appendTranscriptBubble co i r lbl t intr s)) \<and>
   heap (state_of (appendTranscriptBubble co i r lbl t intr s)) ! a = heap s ! a"
  by (auto simp: untouched_def not_pending_def appendTranscriptBubble_def
      hideTranscriptEmpty_def file_entry_def Let_def nth_append split: option.splits)

lemma untouched_completed_branch:
  assumes "untouched k a s"
    and "get_prop data (js ''item_id'') \<noteq> Some (JStr k)" "js ''user-'' @ decimal now \<noteq> k"
  shows "untouched k a (state_of (completed_branch co now data s)) \<and>
     heap (state_of (completed_branch co now data s)) ! a = heap s ! a"
proof -
  let ?t = "or_else (get_prop data (js ''transcript'')) (JStr [])"
  let ?i = "or_else (get_prop data (js ''item_id'')) (JStr (js ''user-'' @ decimal now))"
  from assms(2,3) have i: "?i \<noteq> JStr k" by (simp add: or_else_neq)
  show ?thesis
  proof (cases "truthy ?t")
    case False
    with assms(1) show ?thesis by (simp add: completed_branch_def Let_def)
  next
    case True
    show ?thesis
    proof (cases "find_entry s ?i")
      case (Some b)
      from untouched_find [OF assms(1) i Some] have "b \<noteq> a" .
      from untouched_update_entry [OF assms(1) this] True Some assms(1) show ?thesis
        by (simp add: completed_branch_def Let_def split: option.splits)
    next
      case None
      show ?thesis
      proof (cases "lastUserSpeechEntry s")
        case l: None
        with True None untouched_appendTranscriptBubble [OF assms(1)] show ?thesis
          by (simp add: completed_branch_def Let_def)
      next
        case l: (Some b)
        from untouched_pending [OF assms(1) l] have ba: "b \<noteq> a" .
        show ?thesis
        proof (cases "ToString co ?t")
          case t: None
          with True None l assms(1) show ?thesis by (simp add: completed_branch_def Let_def)
        next
          case t: (Some bt)
          let ?s1 = "update_entry b (set_final_text bt ?t) s"
          from untouched_update_entry [OF assms(1) ba, of "set_final_text bt ?t"]
          have u1: "untouched k a ?s1" and h1: "heap ?s1 ! a = heap s ! a" by simp_all
          from untouched_file_entry [OF u1 ba, of ?i]
          have u2: "untouched k a (file_entry ?i b ?s1)"
            and h2: "heap (file_entry ?i b ?s1) ! a = heap ?s1 ! a" by simp_all
          from u2 have "untouched k a ((file_entry ?i b ?s1)\<lparr>lastUserSpeechEntry := None\<rparr>)"
            by (simp add: untouched_def not_pending_def)
          with h1 h2 True None l t show ?thesis
            by (simp add: completed_branch_def Let_def)
        qed
      qed
    qed
  qed
qed

lemma untouched_delta_branch:
  assumes "untouched k a s"
    and "get_prop data (js ''item_id'') \<noteq> Some (JStr k)" "js ''grok-'' @ decimal now \<noteq> k"
  shows "untouched k a (state_of (delta_branch co now data s)) \<and>
     heap (state_of (delta_branch co now data s)) ! a = heap s ! a"
proof -
  let ?d = "or_else (get_prop data (js ''delta'')) (JStr [])"
  let ?i = "or_else (get_prop data (js ''item_id'')) (JStr (js ''grok-'' @ decimal now))"
  from assms(2,3) have i: "?i \<noteq> JStr k" by (simp add: or_else_neq)
  show ?thesis
  proof (cases "truthy ?d")
    case False
    with assms(1) show ?thesis by (simp add: delta_branch_def Let_def)
  next
    case True
    show ?thesis
    proof (cases "find_entry s ?i")
      case None
      with True untouched_appendTranscriptBubble [OF assms(1)] show ?thesis
        by (simp add: delta_branch_def Let_def)
    next
      case (Some b)
      from untouched_find [OF assms(1) i Some] have ba: "b \<noteq> a" .
      show ?thesis
      proof (cases "js_plus co (entry_text (heap s ! b)) ?d")
        case p: None
        with True Some assms(1) show ?thesis by (simp add: delta_branch_def Let_def)
      next
        case p: (Some v)
        let ?s1 = "update_entry b (\<lambda>e. e\<lparr>entry_text := v\<rparr>) s"
        from untouched_update_entry [OF assms(1) ba, of "\<lambda>e. e\<lparr>entry_text := v\<rparr>"]
        have u1: "untouched k a ?s1" and h1: "heap ?s1 ! a = heap s ! a" by simp_all
        show ?thesis
        proof (cases "ToString co v")
          case t: None
          with True Some p u1 h1 show ?thesis by (simp add: delta_branch_def Let_def)
        next
          case t: (Some bt)
          from untouched_update_entry [OF u1 ba, of "\<lambda>e. e\<lparr>bubbleText := bt\<rparr>"] h1
            True Some p t
          show ?thesis by (simp add: delta_branch_def Let_def)
        qed
      qed
    qed
  qed
qed

lemma untouched_done_branch:
  assumes "untouched k a s"
    and "get_prop data (js ''item_id'') \<noteq> Some (JStr k)" "js ''grok-'' @ decimal now \<noteq> k"
  shows "untouched k a (state_of (done_branch co now data s)) \<and>
     heap (state_of (done_branch co now data s)) ! a = heap s ! a"
proof -
  let ?t = "or_else (get_prop data (js ''transcript'')) (JStr [])"
  let ?i = "or_else (get_prop data (js ''item_id'')) (JStr (js ''grok-'' @ decimal now))"
  from assms(2,3) have i: "?i \<noteq> JStr k" by (simp add: or_else_neq)
  show ?thesis
  proof (cases "find_entry s ?i")
    case None
    with untouched_appendTranscriptBubble [OF assms(1)] assms(1) show ?thesis
      by (simp add: done_branch_def Let_def)
  next
    case (Some b)
    from untouched_find [OF assms(1) i Some] have ba: "b \<noteq> a" .
    show ?thesis
    proof (cases "truthy ?t")
      case False
      with Some untouched_update_entry [OF assms(1) ba] show ?thesis
        by (simp add: done_branch_def Let_def)
    next
      case True
      let ?s1 = "update_entry b (\<lambda>e. e\<lparr>entry_text := ?t\<rparr>) s"
      from untouched_update_entry [OF assms(1) ba, of "\<lambda>e. e\<lparr>entry_text := ?t\<rparr>"]
      have u1: "untouched k a ?s1" and h1: "heap ?s1 ! a = heap s ! a" by simp_all
      show ?thesis
      proof (cases "ToString co ?t")
        case t: None
        with True Some u1 h1 show ?thesis by (simp add: done_branch_def Let_def)
      next
        case t: (Some bt)
        from untouched_update_entry [OF u1 ba, of "\<lambda>e. e\<lparr>bubbleText := bt, interim := False\<rparr>"]
          h1 True Some t
        show ?thesis by (simp add: done_branch_def Let_def)
      qed
    qed
  qed
qed

lemma handleDataMessage_branches:
  assumes "handleDataMessage parse co now txt s = Inr s'"
  shows "s' = s \<or> (\<exists>data. parse txt = Some data \<and>
     (s' = state_of (completed_branch co now data s) \<or>
      s' = state_of (delta_branch co now data s) \<or>
      s' = state_of (done_branch co now data s)))"
  using assms
  by (auto simp: handleDataMessage_def split: if_splits option.splits)

lemma untouched_handleDataMessage:
  assumes "handleDataMessage parse co now txt s = Inr s'" "untouched (typed_key n) a s"
    and "avoids parse (typed_key n) (DataReceived now txt)"
  shows "untouched (typed_key n) a s' \<and> heap s' ! a = heap s ! a"
proof -
  from handleDataMessage_branches [OF assms(1)]
  consider "s' = s"
    | data where "parse txt = Some data" "s' = state_of (completed_branch co now data s)"
    | data where "parse txt = Some data" "s' = state_of (delta_branch co now data s)"
    | data where "parse txt = Some data" "s' = state_of (done_branch co now data s)"
    by blast
  then show ?thesis
  proof cases
    case 1
    with assms(2) show ?thesis by simp
  next
    case 2
    with assms(3) have "get_prop data (js ''item_id'') \<noteq> Some (JStr (typed_key n))" by simp
    from untouched_completed_branch [OF assms(2) this typed_key_not_fallback(1)] 2(2)
    show ?thesis by simp
  next
    case 3
    with assms(3) have "get_prop data (js ''item_id'') \<noteq> Some (JStr (typed_key n))" by simp
    from untouched_delta_branch [OF assms(2) this typed_key_not_fallback(2)] 3(2)
    show ?thesis by simp
  next
    case 4
    with assms(3) have "get_prop data (js ''item_id'') \<noteq> Some (JStr (typed_key n))" by simp
    from untouched_done_branch [OF assms(2) this typed_key_not_fallback(2)] 4(2)
    show ?thesis by simp
  qed
qed

lemma untouched_sendTextMessage:
  assumes "sendTextMessage co now txt s = Inr s'" "untouched k a s"
  shows "untouched k a s' \<and> heap s' ! a = heap s ! a"
proof -
  from sendTextMessage_cases [OF assms(1)] show ?thesis
  proof
    assume "s' = s" with assms show ?thesis by simp
  next
    assume "\<exists>s1. appendTranscriptBubble co (JStr (js ''text-user-'' @ decimal now)) User label_you
             (JStr (trim txt)) False s = Returned s1 \<and>
           s' = s1\<lparr>published := published s1 @ [(TextEncoder_encode (trim txt), js ''grok.chat'')]\<rparr>"
    then obtain s1 where s1: "appendTranscriptBubble co (JStr (js ''text-user-'' @ decimal now)) User label_you
             (JStr (trim txt)) False s = Returned s1"
      "s' = s1\<lparr>published := published s1 @ [(TextEncoder_encode (trim txt), js ''grok.chat'')]\<rparr>"
      by blast
    from untouched_appendTranscriptBubble [OF assms(2), of co "JStr (js ''text-user-'' @ decimal now)"
        User label_you "JStr (trim txt)" False] s1(1)
    have "untouched k a s1 \<and> heap s1 ! a = heap s ! a" by simp
    with s1(2) show ?thesis by (simp add: untouched_def not_pending_def)
  qed
qed

lemma untouched_clearTranscript:
  "untouched k a s \<Longrightarrow> untouched k a (clearTranscript s) \<and> heap (clearTranscript s) ! a = heap s ! a"
  by (simp add: untouched_def not_pending_def clearTranscript_def)

lemma untouched_session_step:
  "session_step ev s = Some s' \<Longrightarrow> untouched k a s \<Longrightarrow>
   untouched k a s' \<and> heap s' ! a = heap s ! a"
  by (drule session_step_transcript) (auto simp: untouched_def not_pending_def)

lemma untouched_handle_event:
  assumes "handle_event parse co ev s = Some s'" "untouched (typed_key n) a s"
    and "avoids parse (typed_key n) ev"
  shows "untouched (typed_key n) a s' \<and> heap s' ! a = heap s ! a"
proof (cases ev)
  case (TranscriptionReceived segs p)
  with assms untouched_handleTranscription [of "typed_key n" a s segs p] show ?thesis by auto
next
  case (DataReceived now t)
  with assms(1) have "handleDataMessage parse co now t s = Inr s'"
    using handleDataMessage_Inr [of parse co now t s] by auto
  from untouched_handleDataMessage [OF this assms(2)] assms(3) DataReceived show ?thesis by simp
next
  case (TextSent now t)
  show ?thesis
  proof (cases "sendTextMessage co now t s")
    case (Inl e)
    with TextSent assms(1,2) show ?thesis by simp
  next
    case (Inr s1)
    with TextSent assms(1) have "sendTextMessage co now t s = Inr s'" by simp
    from untouched_sendTextMessage [OF this assms(2)] show ?thesis .
  qed
next
  case ClearClicked
  with assms untouched_clearTranscript [of "typed_key n" a s] show ?thesis by auto
next
  case (Session sev)
  with assms(1) have "session_step sev s = Some s'"
    by (simp split: option.splits)
  from untouched_session_step [OF this assms(2)] show ?thesis .
qed

lemma untouched_run:
  "run parse co evs s = Some s' \<Longrightarrow> untouched (typed_key n) a s \<Longrightarrow>
   list_all (avoids parse (typed_key n)) evs \<Longrightarrow>
   untouched (typed_key n) a s' \<and> heap s' ! a = heap s ! a"
proof (induction evs arbitrary: s)
  case Nil
  then show ?case by simp
next
  case (Cons ev evs)
  from Cons.prems(1) obtain s1 where
    h: "handle_event parse co ev s = Some s1" and r: "run parse co evs s1 = Some s'"
    by (auto split: option.splits)
  from Cons.prems(3) have av: "avoids parse (typed_key n) ev"
    "list_all (avoids parse (typed_key n)) evs"
    by simp_all
  from untouched_handle_event [OF h Cons.prems(2) av(1)]
  have u: "untouched (typed_key n) a s1" and e: "heap s1 ! a = heap s ! a"
    by simp_all
  from Cons.IH [OF r u av(2)] e show ?case by simp
qed

lemma typed_key_5: "typed_key 5 = js ''text-user-5''"
  by (simp add: typed_key_def decimal.simps digit_def js_def)

lemma wf_spoken: "wf spoken"
  by (simp add: wf_def spoken_def connected_def initial_def)

lemma after_typed:
  "\<exists>s2. run sample_parse sample_coercions
      [DataReceived 6 (js ''c''), TranscriptionReceived [hello_final] None] typed = Some s2 \<and>
      entry_text (heap s2 ! 0) = JStr (js ''hello'') \<and> \<not> interim (heap s2 ! 0) \<and>
      segmentElements s2 (JStr (js ''p1'')) = Some 0"
  by (simp add: handleDataMessage_def sample_parse_def completed_hello_def message_def
      type_names_distinct completed_branch_def or_else_def set_final_text_def
      update_entry_def handleTranscription_def handleSegment_def hideTranscriptEmpty_def
      isLocal_def Let_def typed_def spoken_def connected_def initial_def hello_entry_def
      hello_final_def js_def)

lemma reconnecting_reached:
  "session_run
     [StartClick True, StartClick True, PublicKeyResolved 0 (Some (js ''key'')) True,
      LocalTracksResolved 0 1, TokenResponse 0 True, TokenBodyResolved 0,
      ConnectResolved 0 (js ''me''), PublishResolved 0,
      PublicKeyResolved 1 (Some (js ''key'')) True]
     initial = Some reconnecting"
  by (simp add: initial_def connected_def reconnecting_def clearTranscript_def pc_at_def
      set_pc_def transport_def)

lemma stopped_reached:
  "session_run [StopClick, DisconnectResolved 0] reconnecting = Some stopped"
  by (simp add: initial_def connected_def reconnecting_def stopped_def resetUI_def
      transport_def)

section \<open>Payloads that are ignored\<close>

text \<open>
  C5. A payload that \<open>JSON.parse\<close> rejects, or whose parsed value has no \<open>type\<close>
  property (every value that is not an object, and every object without one), or whose
  \<open>type\<close> is none of the three recognised strings, leaves the whole state as it was:
  the entries, the identity table, the pending user entry and everything else. The
  handler returns normally; no exception leaves it.
\<close>

theorem unrecognized_payload_ignored:
  assumes "parse txt = None \<or>
     (\<exists>data. parse txt = Some data \<and>
        (case get_prop data (js ''type'') of
           None \<Rightarrow> True
         | Some ty \<Rightarrow>
             ty \<noteq> JStr type_completed \<and> ty \<noteq> JStr type_delta \<and> ty \<noteq> JStr type_done))"
  shows "handleDataMessage parse co now txt s = Inr s"
  using assms
  by (auto simp: handleDataMessage_def split: option.splits)

theorem unrecognized_payload_ignored_witness:
  "sample_parse (js ''x'') = Some (message (js ''session.updated'') []) \<and>
   get_prop (message (js ''session.updated'') []) (js ''type'')
     = Some (JStr (js ''session.updated'')) \<and>
   js ''session.updated'' \<noteq> type_completed \<and>
   js ''session.updated'' \<noteq> type_delta \<and>
   js ''session.updated'' \<noteq> type_done \<and>
   handleDataMessage sample_parse sample_coercions 7 (js ''x'') spoken = Inr spoken \<and>
   sample_parse (js ''not json'') = None \<and>
   handleDataMessage sample_parse sample_coercions 7 (js ''not json'') spoken = Inr spoken"
proof -
  have p: "sample_parse (js ''x'') = Some (message (js ''session.updated'') [])"
    by (simp add: sample_parse_def js_def)
  have g: "get_prop (message (js ''session.updated'') []) (js ''type'')
      = Some (JStr (js ''session.updated''))"
    by (simp add: message_def)
  have d: "js ''session.updated'' \<noteq> type_completed"
    "js ''session.updated'' \<noteq> type_delta"
    "js ''session.updated'' \<noteq> type_done"
    by (simp_all add: type_completed_def type_delta_def type_done_def js_def)
  have n: "sample_parse (js ''not json'') = None"
    by (simp add: sample_parse_def js_def)
  have "handleDataMessage sample_parse sample_coercions 7 (js ''x'') spoken = Inr spoken"
    by (rule unrecognized_payload_ignored) (simp add: p g d)
  moreover have "handleDataMessage sample_parse sample_coercions 7 (js ''not json'') spoken = Inr spoken"
    by (rule unrecognized_payload_ignored) (simp add: n)
  ultimately show ?thesis using p g d n by simp
qed

section \<open>A completed transcription without text\<close>

text \<open>
  C9. A completed-transcription message whose \<open>transcript\<close> is missing or empty is
  dropped: the state stays exactly as it was, whatever its \<open>item_id\<close> is, so an entry
  filed under that id keeps its text and its interim mark and the pending user entry is
  not consumed. A done message without text, by contrast, does mark the entry filed
  under its \<open>item_id\<close> final and changes nothing else.
\<close>

theorem completed_without_transcript_dropped:
  assumes "carries parse txt type_completed = Some data"
    and "lacks data (js ''transcript'')"
  shows "handleDataMessage parse co now txt s = Inr s \<and>
    (\<forall>txt' data' i a.
       hasContainer s \<and> carries parse txt' type_done = Some data' \<and>
       lacks data' (js ''transcript'') \<and> get_prop data' (js ''item_id'') = Some (JStr i) \<and>
       i \<noteq> [] \<and> segmentElements s (JStr i) = Some a \<longrightarrow>
       handleDataMessage parse co now txt' s =
         Inr (update_entry a (\<lambda>e. e\<lparr>interim := False\<rparr>) s))"
proof
  show "handleDataMessage parse co now txt s = Inr s"
  proof (cases "hasContainer s")
    case True
    then show ?thesis
      using assms
      by (simp add: handleDataMessage_completed completed_branch_def or_else_lacks)
  next
    case False
    then show ?thesis by (simp add: handleDataMessage_no_container)
  qed
next
  show "\<forall>txt' data' i a.
       hasContainer s \<and> carries parse txt' type_done = Some data' \<and>
       lacks data' (js ''transcript'') \<and> get_prop data' (js ''item_id'') = Some (JStr i) \<and>
       i \<noteq> [] \<and> segmentElements s (JStr i) = Some a \<longrightarrow>
       handleDataMessage parse co now txt' s =
         Inr (update_entry a (\<lambda>e. e\<lparr>interim := False\<rparr>) s)"
    by (simp add: handleDataMessage_done done_branch_def or_else_lacks or_else_str)
qed

theorem completed_without_transcript_dropped_witness:
  "carries sample_parse (js ''a'') type_completed = Some completed_empty \<and>
   lacks completed_empty (js ''transcript'') \<and>
   handleDataMessage sample_parse sample_coercions 7 (js ''a'') spoken = Inr spoken \<and>
   hasContainer spoken \<and>
   carries sample_parse (js ''b'') type_done = Some done_empty \<and>
   lacks done_empty (js ''transcript'') \<and>
   get_prop done_empty (js ''item_id'') = Some (JStr (js ''s1'')) \<and>
   segmentElements spoken (JStr (js ''s1'')) = Some 0 \<and>
   interim (heap spoken ! 0) \<and>
   handleDataMessage sample_parse sample_coercions 7 (js ''b'') spoken =
     Inr (spoken\<lparr>heap := [hello_entry\<lparr>interim := False\<rparr>]\<rparr>)"
proof -
  have a: "carries sample_parse (js ''a'') type_completed = Some completed_empty"
    by (simp add: carries_def sample_parse_def completed_empty_def message_def js_def)
  have b: "lacks completed_empty (js ''transcript'')"
    by (simp add: lacks_def completed_empty_def message_def js_def)
  have c: "carries sample_parse (js ''b'') type_done = Some done_empty"
    by (simp add: carries_def sample_parse_def done_empty_def message_def js_def)
  have d: "lacks done_empty (js ''transcript'')"
    by (simp add: lacks_def done_empty_def message_def js_def)
  have e: "get_prop done_empty (js ''item_id'') = Some (JStr (js ''s1''))"
    by (simp add: done_empty_def message_def js_def)
  have f: "hasContainer spoken" "segmentElements spoken (JStr (js ''s1'')) = Some 0"
    "interim (heap spoken ! 0)" "js ''s1'' \<noteq> []"
    by (simp_all add: spoken_def connected_def initial_def hello_entry_def js_def)
  have u: "update_entry 0 (\<lambda>e. e\<lparr>interim := False\<rparr>) spoken
      = spoken\<lparr>heap := [hello_entry\<lparr>interim := False\<rparr>]\<rparr>"
    by (simp add: update_entry_def spoken_def)
  from completed_without_transcript_dropped [OF a b, of sample_coercions 7 spoken]
  have "handleDataMessage sample_parse sample_coercions 7 (js ''a'') spoken = Inr spoken"
    and "handleDataMessage sample_parse sample_coercions 7 (js ''b'') spoken =
      Inr (update_entry 0 (\<lambda>e. e\<lparr>interim := False\<rparr>) spoken)"
    using c d e f by blast+
  with a b c d e f u show ?thesis by simp
qed

section \<open>Segments received without a local identity\<close>

text \<open>
  C10. While no local participant identity is recorded, a batch of transport segments
  is never taken as local, whoever its participant is: the pending user entry is left
  as it was, and every entry the batch creates has the assistant role.
\<close>

theorem no_identity_means_assistant:
  assumes "localParticipantIdentity s = None"
  shows "\<not> isLocal participant s \<and>
    lastUserSpeechEntry (handleTranscription segs participant s) = lastUserSpeechEntry s \<and>
    (\<forall>a. length (heap s) \<le> a \<and>
         a < length (heap (handleTranscription segs participant s)) \<longrightarrow>
         role (heap (handleTranscription segs participant s) ! a) = Assistant)"
proof -
  have nl: "\<not> isLocal participant s"
    using assms by (simp add: isLocal_def split: option.splits)
  have "assistant_only s (hideTranscriptEmpty s)"
    by (auto simp: assistant_only_def hideTranscriptEmpty_def)
  moreover have "assistant_only s s"
    unfolding assistant_only_def by auto
  ultimately have "assistant_only s (handleTranscription segs participant s)"
    using nl by (simp add: handleTranscription_def foldl_not_local)
  with nl show ?thesis by (simp add: assistant_only_def)
qed

theorem no_identity_means_assistant_witness:
  "localParticipantIdentity (resetUI connected) = None \<and>
   \<not> isLocal (Some (js ''me'')) (resetUI connected) \<and>
   lastUserSpeechEntry (handleTranscription [hello_segment] (Some (js ''me'')) (resetUI connected))
     = None \<and>
   length (heap (handleTranscription [hello_segment] (Some (js ''me'')) (resetUI connected))) = 1 \<and>
   role (heap (handleTranscription [hello_segment] (Some (js ''me'')) (resetUI connected)) ! 0)
     = Assistant"
proof -
  let ?s = "resetUI connected"
  let ?s' = "handleTranscription [hello_segment] (Some (js ''me'')) ?s"
  have n: "localParticipantIdentity ?s = None" "lastUserSpeechEntry ?s = None"
    "length (heap ?s) = 0"
    by (simp_all add: resetUI_def connected_def initial_def)
  have l: "length (heap ?s') = 1"
    by (simp add: handleTranscription_def handleSegment_def hideTranscriptEmpty_def Let_def
        resetUI_def connected_def initial_def hello_segment_def)
  from no_identity_means_assistant [OF n(1), of "Some (js ''me'')" "[hello_segment]"] n l
  show ?thesis by simp
qed

section \<open>Re-keying the pending user entry\<close>

text \<open>
  C1. The entry at \<open>a\<close> was filed under the transport id \<open>T1\<close> and is the pending user
  entry. A completed-transcription message arrives with an \<open>item_id\<close> \<open>P1\<close> that is no
  key of the table and a transcript \<open>S\<close> that is not empty. Then no entry is created
  (the container and the store keep their sizes), the same entry is filed under \<open>T1\<close>
  and under \<open>P1\<close>, its text is \<open>S\<close>, it is final, and no user entry is pending any more.
\<close>

theorem completed_rekeys_pending_entry:
  assumes "hasContainer s"
    and "segmentElements s (JStr T1) = Some a" and "lastUserSpeechEntry s = Some a"
    and "a < length (heap s)"
    and "carries parse txt type_completed = Some data"
    and "get_prop data (js ''item_id'') = Some (JStr P1)" and "P1 \<noteq> []"
    and "segmentElements s (JStr P1) = None"
    and "get_prop data (js ''transcript'') = Some (JStr S)" and "S \<noteq> []"
  shows "\<exists>s'. handleDataMessage parse co now txt s = Inr s' \<and>
     s' = s\<lparr>heap := (heap s)[a := (heap s ! a)\<lparr>bubbleText := S, interim := False,
                                                  entry_text := JStr S\<rparr>],
            segmentElements := (segmentElements s)(JStr P1 \<mapsto> a),
            lastUserSpeechEntry := None\<rparr> \<and>
     children s' = children s \<and> length (heap s') = length (heap s) \<and>
     segmentElements s' (JStr T1) = Some a \<and> segmentElements s' (JStr P1) = Some a \<and>
     entry_text (heap s' ! a) = JStr S \<and> bubbleText (heap s' ! a) = S \<and>
     \<not> interim (heap s' ! a) \<and> role (heap s' ! a) = role (heap s ! a) \<and>
     lastUserSpeechEntry s' = None"
  using assms
  by (auto simp: handleDataMessage_completed completed_branch_def or_else_str
      set_final_text_def update_entry_def)

theorem completed_rekeys_pending_entry_witness:
  "hasContainer spoken \<and> segmentElements spoken (JStr (js ''s1'')) = Some 0 \<and>
   lastUserSpeechEntry spoken = Some 0 \<and> 0 < length (heap spoken) \<and>
   carries sample_parse (js ''c'') type_completed = Some completed_hello \<and>
   get_prop completed_hello (js ''item_id'') = Some (JStr (js ''p1'')) \<and> js ''p1'' \<noteq> [] \<and>
   segmentElements spoken (JStr (js ''p1'')) = None \<and>
   get_prop completed_hello (js ''transcript'') = Some (JStr (js ''Hello there'')) \<and>
   js ''Hello there'' \<noteq> [] \<and>
   handleDataMessage sample_parse sample_coercions 7 (js ''c'') spoken =
     Inr (spoken\<lparr>heap := [hello_entry\<lparr>bubbleText := js ''Hello there'', interim := False,
                                         entry_text := JStr (js ''Hello there'')\<rparr>],
                 segmentElements := [JStr (js ''s1'') \<mapsto> 0, JStr (js ''p1'') \<mapsto> 0],
                 lastUserSpeechEntry := None\<rparr>)"
proof -
  have s: "hasContainer spoken" "segmentElements spoken (JStr (js ''s1'')) = Some 0"
    "lastUserSpeechEntry spoken = Some 0" "0 < length (heap spoken)"
    "segmentElements spoken (JStr (js ''p1'')) = None"
    by (simp_all add: spoken_def connected_def initial_def js_def)
  have c: "carries sample_parse (js ''c'') type_completed = Some completed_hello"
    by (simp add: carries_def sample_parse_def completed_hello_def message_def js_def)
  have g: "get_prop completed_hello (js ''item_id'') = Some (JStr (js ''p1''))"
    "get_prop completed_hello (js ''transcript'') = Some (JStr (js ''Hello there''))"
    by (simp_all add: completed_hello_def message_def js_def)
  have e: "js ''p1'' \<noteq> []" "js ''Hello there'' \<noteq> []"
    by (simp_all add: js_def)
  have h: "heap spoken = [hello_entry]" "segmentElements spoken = [JStr (js ''s1'') \<mapsto> 0]"
    by (simp_all add: spoken_def)
  from completed_rekeys_pending_entry [OF s(1-4) c g(1) e(1) s(5) g(2) e(2), of sample_coercions 7]
  have "handleDataMessage sample_parse sample_coercions 7 (js ''c'') spoken =
     Inr (spoken\<lparr>heap := (heap spoken)[0 := (heap spoken ! 0)\<lparr>bubbleText := js ''Hello there'',
                     interim := False, entry_text := JStr (js ''Hello there'')\<rparr>],
                 segmentElements := (segmentElements spoken)(JStr (js ''p1'') \<mapsto> 0),
                 lastUserSpeechEntry := None\<rparr>)"
    by blast
  with s c g e show ?thesis by (simp add: h)
qed

section \<open>Clearing the transcript\<close>

text \<open>
  C6. On a page with a transcript container, clearing the transcript empties the
  container and the identity table (the one table holds the transport ids and the
  protocol ids) and forgets the pending user entry, all in one step. Clearing twice is
  clearing once, and clearing the transcript of a freshly loaded page changes nothing.
  A segment processed after a clear, whatever its id, creates a new entry: a new
  object at the end of the store, the only child of the container and the only key of
  the table, with the segment's own text and finality.
\<close>

theorem clear_transcript_resets:
  assumes "hasContainer s"
  shows "children (clearTranscript s) = [] \<and>
    segmentElements (clearTranscript s) = Map.empty \<and>
    lastUserSpeechEntry (clearTranscript s) = None \<and>
    clearTranscript (clearTranscript s) = clearTranscript s \<and>
    clearTranscript initial = initial \<and>
    handleTranscription [seg] participant (clearTranscript s) =
      s\<lparr>emptyShown := False, children := [length (heap s)],
        heap := heap s @
          [\<lparr>role = (if isLocal participant s then User else Assistant), segmentId = seg_id seg,
            roleLabel = (if isLocal participant s then label_you else label_grok),
            bubbleText = (case seg_text seg of None \<Rightarrow> [] | Some t \<Rightarrow> t),
            interim = (\<not> seg_final seg),
            entry_text = JStr (case seg_text seg of None \<Rightarrow> [] | Some t \<Rightarrow> t)\<rparr>],
        segmentElements := [JStr (seg_id seg) \<mapsto> length (heap s)],
        lastUserSpeechEntry := (if isLocal participant s then Some (length (heap s)) else None)\<rparr>"
  using assms
  by (auto simp: clearTranscript_def initial_def handleTranscription_def handleSegment_def
      hideTranscriptEmpty_def isLocal_def Let_def split: option.splits)

theorem clear_transcript_resets_witness:
  "hasContainer spoken \<and> children spoken = [0] \<and>
   segmentElements spoken (JStr (js ''s1'')) = Some 0 \<and>
   children (clearTranscript spoken) = [] \<and>
   segmentElements (clearTranscript spoken) (JStr (js ''s1'')) = None \<and>
   lastUserSpeechEntry (clearTranscript spoken) = None \<and>
   clearTranscript (clearTranscript spoken) = clearTranscript spoken \<and>
   handleTranscription [hello_segment] (Some (js ''me'')) (clearTranscript spoken) =
     spoken\<lparr>children := [1], heap := [hello_entry, hello_entry],
            segmentElements := [JStr (js ''s1'') \<mapsto> 1], lastUserSpeechEntry := Some 1\<rparr>"
proof -
  have s: "hasContainer spoken" "children spoken = [0]"
    "segmentElements spoken (JStr (js ''s1'')) = Some 0"
    by (simp_all add: spoken_def connected_def initial_def)
  have l: "isLocal (Some (js ''me'')) spoken"
    by (simp add: isLocal_def spoken_def connected_def js_def)
  have v: "spoken\<lparr>emptyShown := False, children := [length (heap spoken)],
        heap := heap spoken @
          [\<lparr>role = User, segmentId = seg_id hello_segment, roleLabel = label_you,
            bubbleText = (case seg_text hello_segment of None \<Rightarrow> [] | Some t \<Rightarrow> t),
            interim = (\<not> seg_final hello_segment),
            entry_text = JStr (case seg_text hello_segment of None \<Rightarrow> [] | Some t \<Rightarrow> t)\<rparr>],
        segmentElements := [JStr (seg_id hello_segment) \<mapsto> length (heap spoken)],
        lastUserSpeechEntry := Some (length (heap spoken))\<rparr>
      = spoken\<lparr>children := [1], heap := [hello_entry, hello_entry],
            segmentElements := [JStr (js ''s1'') \<mapsto> 1], lastUserSpeechEntry := Some 1\<rparr>"
    by (simp add: spoken_def hello_segment_def hello_entry_def)
  from clear_transcript_resets [OF s(1), of hello_segment "Some (js ''me'')"] s l v
  show ?thesis by simp
qed

section \<open>Typed messages\<close>

text \<open>
  C7, as amended. A typed message with visible text, sent while the room is connected
  (on a page with the transcript container), makes one call of \<open>publishData\<close>: the
  payload is the UTF-8 encoding of the trimmed text and nothing else, and the topic is
  \<open>grok.chat\<close>.
\<close>

theorem typed_text_published:
  assumes "hasContainer s" and "room s = Some RoomConnected" and "trim txt \<noteq> []"
  shows "\<exists>s'. sendTextMessage co now txt s = Inr s' \<and>
    published s' = published s @ [(TextEncoder_encode (trim txt), js ''grok.chat'')]"
  using assms
  by (simp add: sendTextMessage_def appendTranscriptBubble_container Let_def)

theorem typed_text_published_witness:
  "hasContainer connected \<and> room connected = Some RoomConnected \<and>
   trim (js '' hi '') = js ''hi'' \<and> js ''hi'' \<noteq> [] \<and>
   TextEncoder_encode (js ''hi'') = [0x68, 0x69] \<and>
   (case sendTextMessage sample_coercions 5 (js '' hi '') connected of
      Inl e \<Rightarrow> []
    | Inr s' \<Rightarrow> published s') = [([0x68, 0x69], js ''grok.chat'')]"
proof -
  have h: "hasContainer connected" "room connected = Some RoomConnected" "published connected = []"
    by (simp_all add: connected_def initial_def)
  have t: "trim (js '' hi '') = js ''hi''" "js ''hi'' \<noteq> []"
    by (simp_all add: trim_hi) (simp add: js_def)
  then have t': "trim (js '' hi '') \<noteq> []" by simp
  from typed_text_published [OF h(1,2) t', of sample_coercions 5] h(3) t encode_hi
  have "(case sendTextMessage sample_coercions 5 (js '' hi '') connected of
      Inl e \<Rightarrow> []
    | Inr s' \<Rightarrow> published s') = [([0x68, 0x69], js ''grok.chat'')]"
    by auto
  with h t encode_hi show ?thesis by simp
qed

text \<open>
  C7 as stated fails: the topic of the published payload is \<open>grok.chat\<close>, not \<open>chat\<close>.
\<close>

theorem typed_text_published_counterexample:
  "room spoken = Some RoomConnected \<and> trim (js '' hi '') = js ''hi'' \<and>
   sendTextMessage sample_coercions 5 (js '' hi '') spoken = Inr typed \<and>
   published spoken = [] \<and> published typed = [([0x68, 0x69], js ''grok.chat'')] \<and>
   js ''grok.chat'' \<noteq> js ''chat''"
proof -
  have "room spoken = Some RoomConnected" "published spoken = []"
    "published typed = [([0x68, 0x69], js ''grok.chat'')]"
    by (simp_all add: typed_def spoken_def connected_def initial_def)
  moreover have "js ''grok.chat'' \<noteq> js ''chat''"
    by (simp add: js_def)
  ultimately show ?thesis using trim_hi typed_reached by simp
qed

section \<open>Streaming the assistant's speech\<close>

text \<open>
  C2, as the script has it. The page has the transcript container, the item id \<open>i\<close> is
  a string that is not empty and not yet a key of the table, and the delta messages
  \<open>ds\<close> for it carry the string fragments \<open>fs\<close>, not all of them empty. After them the
  entry filed under \<open>i\<close> is a new interim assistant entry whose text is the
  concatenation of the fragments. In that state a done message for \<open>i\<close> with a
  transcript \<open>S\<close> that is not empty replaces the text by \<open>S\<close> and makes the entry final; a
  done message for \<open>i\<close> without text keeps the accumulated text and makes the entry
  final; and a done message without text for an id that is not empty and no key
  changes nothing, so no entry is created.
\<close>

theorem deltas_accumulate_done_replaces:
  assumes "hasContainer s" and "i \<noteq> []" and "segmentElements s (JStr i) = None"
    and "list_all2 (delta_of parse i) ds fs" and "concat fs \<noteq> []"
  shows "\<exists>s1. after_messages parse co ds s = s1 \<and>
    segmentElements s1 (JStr i) = Some (length (heap s)) \<and>
    heap s1 ! length (heap s) =
      \<lparr>role = Assistant, segmentId = i, roleLabel = label_grok, bubbleText = concat fs,
       interim = True, entry_text = JStr (concat fs)\<rparr> \<and>
    (\<forall>now txt data S.
       carries parse txt type_done = Some data \<and>
       get_prop data (js ''item_id'') = Some (JStr i) \<and>
       get_prop data (js ''transcript'') = Some (JStr S) \<and> S \<noteq> [] \<longrightarrow>
       handleDataMessage parse co now txt s1 =
         Inr (s1\<lparr>heap := (heap s1)[length (heap s) :=
                \<lparr>role = Assistant, segmentId = i, roleLabel = label_grok, bubbleText = S,
                 interim = False, entry_text = JStr S\<rparr>]\<rparr>)) \<and>
    (\<forall>now txt data.
       carries parse txt type_done = Some data \<and>
       get_prop data (js ''item_id'') = Some (JStr i) \<and> lacks data (js ''transcript'') \<longrightarrow>
       handleDataMessage parse co now txt s1 =
         Inr (s1\<lparr>heap := (heap s1)[length (heap s) :=
                \<lparr>role = Assistant, segmentId = i, roleLabel = label_grok,
                 bubbleText = concat fs, interim = False, entry_text = JStr (concat fs)\<rparr>]\<rparr>)) \<and>
    (\<forall>now txt data j.
       carries parse txt type_done = Some data \<and>
       get_prop data (js ''item_id'') = Some (JStr j) \<and> j \<noteq> [] \<and>
       segmentElements s1 (JStr j) = None \<and> lacks data (js ''transcript'') \<longrightarrow>
       handleDataMessage parse co now txt s1 = Inr s1)"
proof -
  let ?s1 = "after_messages parse co ds s"
  from deltas_unknown [OF assms(4,2,1,3,5), of co] have
    s1: "hasContainer ?s1" "segmentElements ?s1 (JStr i) = Some (length (heap s))"
      "length (heap s) < length (heap ?s1)"
      "heap ?s1 ! length (heap s) =
        \<lparr>role = Assistant, segmentId = i, roleLabel = label_grok, bubbleText = concat fs,
         interim = True, entry_text = JStr (concat fs)\<rparr>"
    by simp_all
  have A: "handleDataMessage parse co now t ?s1 =
         Inr (?s1\<lparr>heap := (heap ?s1)[length (heap s) :=
                \<lparr>role = Assistant, segmentId = i, roleLabel = label_grok, bubbleText = S,
                 interim = False, entry_text = JStr S\<rparr>]\<rparr>)"
    if "carries parse t type_done = Some data"
      "get_prop data (js ''item_id'') = Some (JStr i)"
      "get_prop data (js ''transcript'') = Some (JStr S)" "S \<noteq> []" for now t data S
    using done_known(1) [OF s1(1) that(1,2) assms(2) s1(2,3) that(3,4)] s1(4)
    by (simp add: update_entry_def)
  have B: "handleDataMessage parse co now t ?s1 =
         Inr (?s1\<lparr>heap := (heap ?s1)[length (heap s) :=
                \<lparr>role = Assistant, segmentId = i, roleLabel = label_grok,
                 bubbleText = concat fs, interim = False, entry_text = JStr (concat fs)\<rparr>]\<rparr>)"
    if "carries parse t type_done = Some data"
      "get_prop data (js ''item_id'') = Some (JStr i)"
      "lacks data (js ''transcript'')" for now t data
    using done_known(2) [OF s1(1) that(1,2) assms(2) s1(2,3) that(3)] s1(4)
    by (simp add: update_entry_def)
  have C: "handleDataMessage parse co now t ?s1 = Inr ?s1"
    if "carries parse t type_done = Some data"
      "get_prop data (js ''item_id'') = Some (JStr j)" "j \<noteq> []"
      "segmentElements ?s1 (JStr j) = None" "lacks data (js ''transcript'')" for now t data j
    using done_unknown_silent [OF s1(1) that] .
  show ?thesis
    using s1(2,4) A B C by blast
qed

text \<open>
  The fragments \<open>Hel\<close> and \<open>lo\<close> for the item \<open>r1\<close>, then each of the three done
  messages.
\<close>

theorem deltas_accumulate_done_replaces_witness:
  "hasContainer connected \<and> js ''r1'' \<noteq> [] \<and>
   segmentElements connected (JStr (js ''r1'')) = None \<and>
   list_all2 (delta_of sample_parse (js ''r1'')) [(1, js ''d1''), (2, js ''d2'')]
     [js ''Hel'', js ''lo''] \<and>
   concat [js ''Hel'', js ''lo''] = js ''Hello'' \<and> js ''Hello'' \<noteq> [] \<and>
   after_messages sample_parse sample_coercions [(1, js ''d1''), (2, js ''d2'')] connected
     = streamed \<and>
   heap streamed ! 0 = hello_reply \<and>
   handleDataMessage sample_parse sample_coercions 3 (js ''e'') streamed =
     Inr (streamed\<lparr>heap := [hello_reply\<lparr>bubbleText := js ''Hello!'', interim := False,
                                          entry_text := JStr (js ''Hello!'')\<rparr>]\<rparr>) \<and>
   handleDataMessage sample_parse sample_coercions 3 (js ''f'') streamed =
     Inr (streamed\<lparr>heap := [hello_reply\<lparr>interim := False\<rparr>]\<rparr>) \<and>
   handleDataMessage sample_parse sample_coercions 3 (js ''b'') streamed = Inr streamed"
proof -
  have h: "hasContainer connected" "js ''r1'' \<noteq> []"
    "segmentElements connected (JStr (js ''r1'')) = None" "length (heap connected) = 0"
    by (simp_all add: connected_def initial_def js_def)
  have d: "list_all2 (delta_of sample_parse (js ''r1'')) [(1, js ''d1''), (2, js ''d2'')]
     [js ''Hel'', js ''lo'']"
    by (simp add: delta_of_def carries_def sample_parse_def delta_hel_def delta_lo_def
        message_def js_def)
  have c: "concat [js ''Hel'', js ''lo''] = js ''Hello''" "js ''Hello'' \<noteq> []"
    "js ''Hello!'' \<noteq> []" "js ''s1'' \<noteq> []"
    by (simp_all add: js_def)
  have c': "concat [js ''Hel'', js ''lo''] \<noteq> []"
    using c by simp
  have e: "carries sample_parse (js ''e'') type_done = Some done_hello"
    "get_prop done_hello (js ''item_id'') = Some (JStr (js ''r1''))"
    "get_prop done_hello (js ''transcript'') = Some (JStr (js ''Hello!''))"
    by (simp_all add: carries_def sample_parse_def done_hello_def message_def js_def)
  have f: "carries sample_parse (js ''f'') type_done = Some done_silent"
    "get_prop done_silent (js ''item_id'') = Some (JStr (js ''r1''))"
    "lacks done_silent (js ''transcript'')"
    by (simp_all add: carries_def lacks_def sample_parse_def done_silent_def message_def js_def)
  have b: "carries sample_parse (js ''b'') type_done = Some done_empty"
    "get_prop done_empty (js ''item_id'') = Some (JStr (js ''s1''))"
    "lacks done_empty (js ''transcript'')"
    "segmentElements streamed (JStr (js ''s1'')) = None"
    by (simp_all add: carries_def lacks_def sample_parse_def done_empty_def message_def
        streamed_def connected_def initial_def js_def)
  have v: "heap streamed = [hello_reply]"
    by (simp add: streamed_def)
  from deltas_accumulate_done_replaces [OF h(1-3) d c', of sample_coercions] obtain s1 where all:
    "after_messages sample_parse sample_coercions [(1, js ''d1''), (2, js ''d2'')] connected
       = s1 \<and>
     segmentElements s1 (JStr (js ''r1'')) = Some (length (heap connected)) \<and>
     heap s1 ! length (heap connected) =
       \<lparr>role = Assistant, segmentId = js ''r1'', roleLabel = label_grok,
        bubbleText = concat [js ''Hel'', js ''lo''], interim = True,
        entry_text = JStr (concat [js ''Hel'', js ''lo''])\<rparr> \<and>
     (\<forall>now txt data S.
       carries sample_parse txt type_done = Some data \<and>
       get_prop data (js ''item_id'') = Some (JStr (js ''r1'')) \<and>
       get_prop data (js ''transcript'') = Some (JStr S) \<and> S \<noteq> [] \<longrightarrow>
       handleDataMessage sample_parse sample_coercions now txt s1 =
         Inr (s1\<lparr>heap := (heap s1)[length (heap connected) :=
                \<lparr>role = Assistant, segmentId = js ''r1'', roleLabel = label_grok, bubbleText = S,
                 interim = False, entry_text = JStr S\<rparr>]\<rparr>)) \<and>
     (\<forall>now txt data.
       carries sample_parse txt type_done = Some data \<and>
       get_prop data (js ''item_id'') = Some (JStr (js ''r1'')) \<and>
       lacks data (js ''transcript'') \<longrightarrow>
       handleDataMessage sample_parse sample_coercions now txt s1 =
         Inr (s1\<lparr>heap := (heap s1)[length (heap connected) :=
                \<lparr>role = Assistant, segmentId = js ''r1'', roleLabel = label_grok,
                 bubbleText = concat [js ''Hel'', js ''lo''], interim = False,
                 entry_text = JStr (concat [js ''Hel'', js ''lo''])\<rparr>]\<rparr>)) \<and>
     (\<forall>now txt data j.
       carries sample_parse txt type_done = Some data \<and>
       get_prop data (js ''item_id'') = Some (JStr j) \<and> j \<noteq> [] \<and>
       segmentElements s1 (JStr j) = None \<and> lacks data (js ''transcript'') \<longrightarrow>
       handleDataMessage sample_parse sample_coercions now txt s1 = Inr s1)"
    by (rule exE)
  note r = all [THEN conjunct1]
  note A = all [THEN conjunct2, THEN conjunct2, THEN conjunct2, THEN conjunct1, rule_format]
  note B = all [THEN conjunct2, THEN conjunct2, THEN conjunct2, THEN conjunct2, THEN conjunct1,
      rule_format]
  note C = all [THEN conjunct2, THEN conjunct2, THEN conjunct2, THEN conjunct2, THEN conjunct2,
      rule_format]
  from r streamed_reached have s1: "s1 = streamed" by simp
  have "handleDataMessage sample_parse sample_coercions 3 (js ''e'') streamed =
     Inr (streamed\<lparr>heap := [hello_reply\<lparr>bubbleText := js ''Hello!'', interim := False,
                                          entry_text := JStr (js ''Hello!'')\<rparr>]\<rparr>)"
    using A [of "js ''e''" done_hello "js ''Hello!''" 3] e c(3)
    by (simp add: s1 v h(4) hello_reply_def)
  moreover have "handleDataMessage sample_parse sample_coercions 3 (js ''f'') streamed =
     Inr (streamed\<lparr>heap := [hello_reply\<lparr>interim := False\<rparr>]\<rparr>)"
    using B [of "js ''f''" done_silent 3] f by (simp add: s1 v h(4) hello_reply_def js_def)
  moreover have "handleDataMessage sample_parse sample_coercions 3 (js ''b'') streamed
      = Inr streamed"
    using C [of "js ''b''" done_empty "js ''s1''" 3] b c(4) by (simp add: s1)
  ultimately show ?thesis
    using h d c streamed_reached v by simp
qed

text \<open>
  Where the conditions fail the script does otherwise. In \<open>heard\<close> the id \<open>s1\<close> is the
  key of a final user entry with the text \<open>hello\<close>: a delta for \<open>s1\<close> with the fragment
  \<open>X\<close> appends to that entry, which stays a final user entry and now reads \<open>helloX\<close>.
  And a single delta with the empty fragment, for the unknown id \<open>r2\<close>, creates no
  entry.
\<close>

theorem deltas_accumulate_done_replaces_counterexample:
  "segmentElements heard (JStr (js ''s1'')) = Some 0 \<and>
   heap heard ! 0 = hello_entry\<lparr>interim := False\<rparr> \<and> role hello_entry = User \<and>
   delta_of sample_parse (js ''s1'') (3, js ''g'') (js ''X'') \<and>
   after_messages sample_parse sample_coercions [(3, js ''g'')] heard =
     heard\<lparr>heap := [hello_entry\<lparr>bubbleText := js ''helloX'', interim := False,
                                  entry_text := JStr (js ''helloX'')\<rparr>]\<rparr> \<and>
   segmentElements connected (JStr (js ''r2'')) = None \<and>
   delta_of sample_parse (js ''r2'') (3, js ''h'') [] \<and>
   after_messages sample_parse sample_coercions [(3, js ''h'')] connected = connected \<and>
   heap connected = []"
  by (simp add: after_messages_def after_message_def handleDataMessage_def sample_parse_def
      delta_x_def delta_nothing_def message_def delta_of_def carries_def
      type_names_distinct delta_branch_def or_else_def
      appendTranscriptBubble_def hideTranscriptEmpty_def Let_def update_entry_def
      heard_def spoken_def connected_def initial_def hello_entry_def js_def)

section \<open>Interim entries become final and stay final\<close>

text \<open>
  C3. Transport batches are processed in a well-formed state of a page that has the
  container, and some segment with the id \<open>i\<close> among them is final (in particular when all the
  segments share the id \<open>i\<close> and one of them is final). Then the entry filed under \<open>i\<close>
  after the batches is final, however many segments, final or not, followed the final
  one; and whatever events follow, from either source (with fields of any type, and
  whatever the platform makes of them), typed text, a clear or the session with any
  number of start and stop requests, that entry is never interim again.
\<close>

theorem interim_only_turns_final:
  assumes "hasContainer s" and "wf s"
    and "\<exists>b \<in> set bs. \<exists>sg \<in> set (fst b). seg_id sg = i \<and> seg_final sg"
  shows "\<exists>s1 a. run parse co (batch_events bs) s = Some s1 \<and>
     segmentElements s1 (JStr i) = Some a \<and> a < length (heap s1) \<and> \<not> interim (heap s1 ! a) \<and>
     (\<forall>evs s2. run parse co evs s1 = Some s2 \<longrightarrow>
        a < length (heap s2) \<and> \<not> interim (heap s2 ! a))"
proof -
  from final_in_batches [OF assms] obtain s1 a
    where r: "run parse co (batch_events bs) s = Some s1" and f: "final_under i a s1"
    by blast
  from f have "settled a s1" by (simp add: final_under_def)
  then have "\<forall>evs s2. run parse co evs s1 = Some s2 \<longrightarrow> settled a s2"
    using settled_run by blast
  with r f show ?thesis
    by (auto simp: final_under_def settled_def)
qed

text \<open>
  The segment \<open>s1\<close> becomes final and is followed by an interim segment with the same
  id; afterwards come another such segment, a done message, and a delta message whose
  fragment is a boolean, which the script stores as it is.
\<close>

theorem interim_only_turns_final_witness:
  "hasContainer connected \<and> wf connected \<and>
   seg_id hello_final = js ''s1'' \<and> seg_final hello_final \<and>
   run sample_parse sample_coercions (batch_events [([hello_segment], Some (js ''me'')),
      ([hello_final, hello_segment], Some (js ''me''))]) connected = Some heard \<and>
   segmentElements heard (JStr (js ''s1'')) = Some 0 \<and> \<not> interim (heap heard ! 0) \<and>
   run sample_parse sample_coercions
     [TranscriptionReceived [hello_segment] None, DataReceived 4 (js ''f''),
      DataReceived 5 (js ''t'')] heard = Some answered \<and>
   \<not> interim (heap answered ! 0) \<and> heap answered ! 1 = true_entry"
proof -
  let ?bs = "[([hello_segment], Some (js ''me'')), ([hello_final, hello_segment], Some (js ''me''))]"
  have h: "hasContainer connected"
    by (simp add: connected_def initial_def)
  have f: "seg_id hello_final = js ''s1''" "seg_final hello_final"
    by (simp_all add: hello_final_def)
  then have e: "\<exists>b \<in> set ?bs. \<exists>sg \<in> set (fst b). seg_id sg = js ''s1'' \<and> seg_final sg"
    by simp
  have k: "segmentElements heard (JStr (js ''s1'')) = Some 0"
    by (simp add: heard_def spoken_def)
  from interim_only_turns_final [OF h wf_connected e, of sample_parse sample_coercions]
    heard_reached [of sample_parse sample_coercions] k
  have "\<not> interim (heap heard ! 0) \<and>
     (\<forall>evs s2. run sample_parse sample_coercions evs heard = Some s2 \<longrightarrow>
        0 < length (heap s2) \<and> \<not> interim (heap s2 ! 0))" by auto
  with answered_reached have "\<not> interim (heap heard ! 0)" "\<not> interim (heap answered ! 0)"
    by blast+
  moreover have "heap answered ! 1 = true_entry" by (simp add: answered_def)
  ultimately show ?thesis
    using h wf_connected f heard_reached answered_reached k by simp
qed

section \<open>The transcript entry of a typed message\<close>

text \<open>
  C8, as the script has it. On a page with the transcript container, in a well-formed
  state, a typed message with visible text, sent while the room is connected, at once
  adds a final user entry with the trimmed text: a new object at the end of the store,
  appended to the container and filed under \<open>'text-user-' + Date.now()\<close> in the same
  table the two sources use; the pending user entry is left as it was. That key differs
  from the key of every typed message sent at another millisecond and from every key
  \<open>'user-' + Date.now()\<close> or \<open>'grok-' + Date.now()\<close> the handler makes up for a protocol
  message without \<open>item_id\<close>. Whatever events follow, the entry stays in the store and
  never becomes the pending user entry; and as long as none of the events carries that
  very key as a segment id or as an \<open>item_id\<close>, the entry is never modified.
\<close>

theorem typed_message_entry:
  assumes "hasContainer s" and "wf s" and "room s = Some RoomConnected" and "trim txt \<noteq> []"
  shows "\<exists>s1. sendTextMessage co now txt s = Inr s1 \<and>
    heap s1 = heap s @ [\<lparr>role = User, segmentId = typed_key now, roleLabel = label_you,
                          bubbleText = trim txt, interim = False,
                          entry_text = JStr (trim txt)\<rparr>] \<and>
    children s1 = children s @ [length (heap s)] \<and>
    segmentElements s1 = (segmentElements s)(JStr (typed_key now) \<mapsto> length (heap s)) \<and>
    lastUserSpeechEntry s1 = lastUserSpeechEntry s \<and>
    (\<forall>now'. now' \<noteq> now \<longrightarrow> typed_key now' \<noteq> typed_key now) \<and>
    (\<forall>now'. js ''user-'' @ decimal now' \<noteq> typed_key now \<and>
            js ''grok-'' @ decimal now' \<noteq> typed_key now) \<and>
    (\<forall>evs s2. run parse co evs s1 = Some s2 \<longrightarrow>
       length (heap s) < length (heap s2) \<and> lastUserSpeechEntry s2 \<noteq> Some (length (heap s))) \<and>
    (\<forall>evs s2. list_all (avoids parse (typed_key now)) evs \<and> run parse co evs s1 = Some s2 \<longrightarrow>
       heap s2 ! length (heap s) = heap s1 ! length (heap s))"
proof -
  let ?a = "length (heap s)"
  let ?s1 = "s\<lparr>emptyShown := False,
            heap := heap s @ [\<lparr>role = User, segmentId = typed_key now, roleLabel = label_you,
                               bubbleText = trim txt, interim = False,
                               entry_text = JStr (trim txt)\<rparr>],
            children := children s @ [?a],
            segmentElements := (segmentElements s)(JStr (typed_key now) \<mapsto> ?a),
            published := published s @ [(TextEncoder_encode (trim txt), js ''grok.chat'')]\<rparr>"
  have send: "sendTextMessage co now txt s = Inr ?s1"
    using assms(1,3,4)
    by (simp add: sendTextMessage_def appendTranscriptBubble_container typed_key_def Let_def)
  have u: "untouched (typed_key now) ?a ?s1"
    using assms(2) by (auto simp: untouched_def not_pending_def wf_def)
  then have np: "not_pending ?a ?s1"
    by (simp add: untouched_def)
  have later: "heap s2 ! ?a = heap ?s1 ! ?a"
    if "list_all (avoids parse (typed_key now)) evs" "run parse co evs ?s1 = Some s2" for evs s2
    using untouched_run [OF that(2) u that(1)] by simp
  have pending: "?a < length (heap s2) \<and> lastUserSpeechEntry s2 \<noteq> Some ?a"
    if "run parse co evs ?s1 = Some s2" for evs s2
    using not_pending_run [OF that np] by (simp add: not_pending_def)
  have fresh: "\<forall>now'. now' \<noteq> now \<longrightarrow> typed_key now' \<noteq> typed_key now"
    using typed_key_inj by blast
  have other: "\<forall>now'. js ''user-'' @ decimal now' \<noteq> typed_key now \<and>
            js ''grok-'' @ decimal now' \<noteq> typed_key now"
    by (simp add: typed_key_not_fallback)
  have never: "\<forall>evs s2. run parse co evs ?s1 = Some s2 \<longrightarrow>
       ?a < length (heap s2) \<and> lastUserSpeechEntry s2 \<noteq> Some ?a"
    using pending by blast
  have kept: "\<forall>evs s2. list_all (avoids parse (typed_key now)) evs \<and>
      run parse co evs ?s1 = Some s2 \<longrightarrow> heap s2 ! ?a = heap ?s1 ! ?a"
    using later by blast
  show ?thesis
    by (rule exI [of _ ?s1]) (intro conjI send fresh other never kept, simp_all)
qed

text \<open>
  The message \<open>hi\<close> typed at millisecond 5 after the user spoke, followed by a completed
  transcription for the item \<open>p1\<close>, which corrects the spoken entry, and a final segment
  \<open>s1\<close>: the typed entry is as it was.
\<close>

theorem typed_message_entry_witness:
  "hasContainer spoken \<and> wf spoken \<and> room spoken = Some RoomConnected \<and>
   trim (js '' hi '') = js ''hi'' \<and> js ''hi'' \<noteq> [] \<and> typed_key 5 = js ''text-user-5'' \<and>
   sendTextMessage sample_coercions 5 (js '' hi '') spoken = Inr typed \<and>
   heap typed ! 1 = hi_entry \<and> lastUserSpeechEntry typed = Some 0 \<and>
   typed_key 6 \<noteq> typed_key 5 \<and>
   list_all (avoids sample_parse (typed_key 5))
     [DataReceived 6 (js ''c''), TranscriptionReceived [hello_final] None] \<and>
   (case run sample_parse sample_coercions
           [DataReceived 6 (js ''c''), TranscriptionReceived [hello_final] None] typed of
      Some s2 \<Rightarrow>
        heap s2 ! 1 = hi_entry \<and> lastUserSpeechEntry s2 \<noteq> Some 1 \<and> \<not> interim (heap s2 ! 0)
    | None \<Rightarrow> False)"
proof -
  let ?evs = "[DataReceived 6 (js ''c''), TranscriptionReceived [hello_final] None]"
  have h: "hasContainer spoken" "room spoken = Some RoomConnected" "length (heap spoken) = 1"
    by (simp_all add: spoken_def connected_def initial_def)
  have t: "trim (js '' hi '') = js ''hi''" "js ''hi'' \<noteq> []"
    by (simp_all add: trim_hi) (simp add: js_def)
  then have t': "trim (js '' hi '') \<noteq> []" by simp
  have e: "heap typed ! 1 = hi_entry" "lastUserSpeechEntry typed = Some 0"
    by (simp_all add: typed_def spoken_def)
  have av: "list_all (avoids sample_parse (typed_key 5)) ?evs"
    by (simp add: typed_key_5 sample_parse_def completed_hello_def message_def hello_final_def
        js_def)
  from after_typed obtain s2 where
    r: "run sample_parse sample_coercions ?evs typed = Some s2" and z: "\<not> interim (heap s2 ! 0)"
    by blast
  from typed_message_entry [OF h(1) wf_spoken h(2) t', of sample_coercions 5 sample_parse]
    typed_reached
  have f: "\<forall>now'. now' \<noteq> 5 \<longrightarrow> typed_key now' \<noteq> typed_key 5"
    and n: "\<forall>evs s2. run sample_parse sample_coercions evs typed = Some s2 \<longrightarrow>
          length (heap spoken) < length (heap s2) \<and>
          lastUserSpeechEntry s2 \<noteq> Some (length (heap spoken))"
    and k: "\<forall>evs s2. list_all (avoids sample_parse (typed_key 5)) evs \<and>
          run sample_parse sample_coercions evs typed = Some s2 \<longrightarrow>
          heap s2 ! length (heap spoken) = heap typed ! length (heap spoken)"
    by auto
  from f have "typed_key 6 \<noteq> typed_key 5" by simp
  from k [rule_format, OF conjI [OF av r]] h(3) e have "heap s2 ! 1 = hi_entry" by simp
  moreover from n [rule_format, OF r] h(3) have "lastUserSpeechEntry s2 \<noteq> Some 1" by simp
  ultimately show ?thesis
    using h wf_spoken t typed_key_5 typed_reached e av r z \<open>typed_key 6 \<noteq> typed_key 5\<close>
    by simp
qed

text \<open>
  C8 as stated fails: the key of a typed entry is a key of the table like any other.
  The typed entry \<open>hi\<close> is filed under \<open>text-user-5\<close>; a transport segment that carries
  this id finds the entry and overwrites its text, and a second message typed in the
  same millisecond is filed under the same key.
\<close>

theorem typed_message_entry_counterexample:
  "sendTextMessage sample_coercions 5 (js '' hi '') spoken = Inr typed \<and>
   segmentElements typed (JStr (js ''text-user-5'')) = Some 1 \<and>
   entry_text (heap typed ! 1) = JStr (js ''hi'') \<and>
   seg_id stray_segment = js ''text-user-5'' \<and>
   entry_text (heap (handleTranscription [stray_segment] None typed) ! 1) = JStr (js ''bye'') \<and>
   \<not> isl (sendTextMessage sample_coercions 5 (js ''again'') typed) \<and>
   segmentElements (projr (sendTextMessage sample_coercions 5 (js ''again'') typed))
     (JStr (js ''text-user-5'')) = Some 2"
proof -
  have "\<not> isl (sendTextMessage sample_coercions 5 (js ''again'') typed) \<and>
    segmentElements (projr (sendTextMessage sample_coercions 5 (js ''again'') typed))
      (JStr (js ''text-user-5'')) = Some 2"
    by (simp add: sendTextMessage_def appendTranscriptBubble_def hideTranscriptEmpty_def Let_def
        typed_def spoken_def connected_def initial_def decimal.simps digit_def
        trim_def js_whitespace_def js_def)
  moreover have "entry_text (heap (handleTranscription [stray_segment] None typed) ! 1)
      = JStr (js ''bye'')"
    by (simp add: handleTranscription_def handleSegment_def hideTranscriptEmpty_def Let_def
        update_entry_def stray_segment_def typed_def spoken_def connected_def initial_def
        js_def)
  moreover have "segmentElements typed (JStr (js ''text-user-5'')) = Some 1"
    "entry_text (heap typed ! 1) = JStr (js ''hi'')" "seg_id stray_segment = js ''text-user-5''"
    by (simp_all add: typed_def hi_entry_def stray_segment_def)
  ultimately show ?thesis using typed_reached by simp
qed

section \<open>Stopping while the session connects\<close>

text \<open>
  C4, as the script has it. The stop button is shown, which it is only after some start
  sequence has connected, and the activation \<open>k\<close> of \<open>startSession\<close> is suspended
  between showing the connecting status and the outcome of its \<open>room.connect\<close>. A click
  on the stop button then completes at once if no room exists and otherwise when the
  disconnect of the room resolves; the status is then the disconnected one and the stop
  button is hidden. The activation is not cancelled: it stays suspended where it was,
  and when the promises it still waits for and its connect succeed the status becomes
  connected and the stop button is shown again; when the connect is rejected the status
  becomes the error status. When the disconnect is rejected instead, \<open>stopSession\<close> ends
  with that exception before it resets anything: status, stop button and activations
  are as they were. What a transport does with the connect of a room that has been
  disconnected is its own matter; the statement tells what the script does with each
  outcome.
\<close>

theorem stop_while_connecting:
  assumes "stopShown s" and "k < length (starts s)" and "connecting (starts s ! k)"
  shows "\<exists>s1. session_run (stop_events s) s = Some s1 \<and>
     status s1 = StatusNone \<and> \<not> stopShown s1 \<and> starts s1 = starts s \<and>
     (\<forall>me. \<exists>s2. session_run (remaining_start k (starts s ! k) me) s1 = Some s2 \<and>
        status s2 = StatusConnected \<and> stopShown s2) \<and>
     (\<exists>s3. session_run (remaining_failed k (starts s ! k)) s1 = Some s3 \<and>
        status s3 = StatusError) \<and>
     (room s \<noteq> None \<longrightarrow>
        (\<exists>s4. session_run [StopClick, DisconnectRejected (length (stops s))] s = Some s4 \<and>
           status s4 = status s \<and> stopShown s4 \<and> starts s4 = starts s))"
  using assms
  by (cases "starts s ! k")
    (auto simp: stop_events_def remaining_start_def remaining_failed_def resetUI_def
      start_failed_def pc_at_def set_pc_def transport_def nth_append)

text \<open>
  C4 as stated fails: no stop request is remembered. The start button is clicked twice
  before the credential of the first click is resolved. The first start sequence
  connects and shows the stop button; the second then sets the status to connecting and
  waits for the microphone. A click on the stop button disconnects the room of the first
  sequence and the status becomes the disconnected one; the second sequence goes on,
  creates its own room, and when that connects the status is connected.
\<close>

theorem stop_while_connecting_counterexample:
  "session_run
     [StartClick True, StartClick True, PublicKeyResolved 0 (Some (js ''key'')) True,
      LocalTracksResolved 0 1, TokenResponse 0 True, TokenBodyResolved 0,
      ConnectResolved 0 (js ''me''), PublishResolved 0,
      PublicKeyResolved 1 (Some (js ''key'')) True]
     initial = Some reconnecting \<and>
   status reconnecting = StatusConnecting \<and> stopShown reconnecting \<and>
   starts reconnecting = [Finished, AwaitLocalTracks] \<and>
   session_run [StopClick, DisconnectResolved 0] reconnecting = Some stopped \<and>
   status stopped = StatusNone \<and>
   map_option status
     (session_run
        [LocalTracksResolved 1 1, TokenResponse 1 True, TokenBodyResolved 1,
         ConnectResolved 1 (js ''me'')] stopped) = Some StatusConnected"
  by (simp add: initial_def connected_def reconnecting_def stopped_def clearTranscript_def
      resetUI_def pc_at_def set_pc_def transport_def)

text \<open>The same page, with the second start sequence as the activation \<open>k = 1\<close>.\<close>

theorem stop_while_connecting_witness:
  "stopShown reconnecting \<and> 1 < length (starts reconnecting) \<and>
   connecting (starts reconnecting ! 1) \<and> starts reconnecting ! 1 = AwaitLocalTracks \<and>
   stop_events reconnecting = [StopClick, DisconnectResolved 0] \<and>
   session_run (stop_events reconnecting) reconnecting = Some stopped \<and>
   status stopped = StatusNone \<and> \<not> stopShown stopped \<and>
   starts stopped = starts reconnecting \<and>
   map_option status (session_run (remaining_start 1 AwaitLocalTracks (js ''me'')) stopped)
     = Some StatusConnected \<and>
   map_option status (session_run (remaining_failed 1 AwaitLocalTracks) stopped)
     = Some StatusError \<and>
   room reconnecting \<noteq> None \<and> status reconnecting = StatusConnecting \<and>
   map_option status (session_run [StopClick, DisconnectRejected 0] reconnecting)
     = Some StatusConnecting"
proof -
  have c: "stopShown reconnecting" "1 < length (starts reconnecting)"
    "connecting (starts reconnecting ! 1)" "starts reconnecting ! 1 = AwaitLocalTracks"
    "stop_events reconnecting = [StopClick, DisconnectResolved 0]"
    "room reconnecting \<noteq> None" "status reconnecting = StatusConnecting"
    "length (stops reconnecting) = 0"
    by (simp_all add: reconnecting_def connected_def initial_def stop_events_def)
  have r: "session_run (stop_events reconnecting) reconnecting = Some stopped"
    using stopped_reached c(5) by simp
  have d: "status stopped = StatusNone" "\<not> stopShown stopped"
    "starts stopped = starts reconnecting"
    by (simp_all add: stopped_def)
  from stop_while_connecting [OF c(1,2,3)] c(4,6,7,8) r
  have "(\<forall>me. \<exists>s2. session_run (remaining_start 1 AwaitLocalTracks me) stopped = Some s2 \<and>
        status s2 = StatusConnected \<and> stopShown s2) \<and>
     (\<exists>s3. session_run (remaining_failed 1 AwaitLocalTracks) stopped = Some s3 \<and>
        status s3 = StatusError) \<and>
     (\<exists>s4. session_run [StopClick, DisconnectRejected 0] reconnecting = Some s4 \<and>
        status s4 = StatusConnecting \<and> stopShown s4 \<and> starts s4 = starts reconnecting)"
    by simp
  then have "map_option status (session_run (remaining_start 1 AwaitLocalTracks (js ''me'')) stopped)
      = Some StatusConnected"
    and "map_option status (session_run (remaining_failed 1 AwaitLocalTracks) stopped)
      = Some StatusError"
    and "map_option status (session_run [StopClick, DisconnectRejected 0] reconnecting)
      = Some StatusConnecting"
    by (metis option.simps(9))+
  with c r d show ?thesis by simp
qed

end
